theory Spec2Isabelle
  imports Main "HOL-Library.Finite_Map" "HOL-Library.Sublist"
begin

section \<open>The file download engine of \<^verbatim>\<open>automas/mcp/servers/download/server.py\<close>\<close>

text \<open>
  The engine is embedded function by function.  A Python \<^verbatim>\<open>str\<close> is a \<^typ>\<open>string\<close>
  (a list of characters; one \<^typ>\<open>char\<close> is one code point, so the model covers the
  code points 0 to 255), a Python \<^verbatim>\<open>int\<close> is an \<^typ>\<open>int\<close>, lengths and the loop counter
  (which starts at 1 and only grows) are \<^typ>\<open>nat\<close>.  Exceptions are values of a sum
  type, the file system and the log of HTTP requests are passed explicitly.

  What the model takes for granted:
  \<^item> paths are POSIX paths, and \<^verbatim>\<open>pathlib\<close> behaves as in CPython 3.8 to 3.13;
  \<^item> the file system is touched by the engine only; \<^verbatim>\<open>exists\<close>, \<^verbatim>\<open>unlink\<close> and \<^verbatim>\<open>stat\<close> do
    not raise, and a file that is open can be unlinked (POSIX);
  \<^item> every exception is a subclass of \<^verbatim>\<open>Exception\<close> (a cancellation of the task is not
    modelled);
  \<^item> in a batch every task starts in the world of the call, and the transfers of tasks
    that resolve to the same path do not interleave.
\<close>

subsection \<open>String primitives used by the engine\<close>

text \<open>
  The character class of the regular expression in \<^verbatim>\<open>_sanitize_filename\<close>:
  \<^verbatim>\<open>[<>:"/\\|?*\x00-\x1f]\<close>.
\<close>

definition illegal_char :: "char \<Rightarrow> bool" where
  "illegal_char c \<longleftrightarrow>
     c \<in> {CHR ''<'', CHR ''>'', CHR '':'', CHR 0x22, CHR ''/'', CHR 0x5C,
          CHR ''|'', CHR ''?'', CHR ''*''}
     \<or> (of_char c :: nat) \<le> 0x1f"

text \<open>\<^verbatim>\<open>re.sub(r'[<>:"/\\|?*\x00-\x1f]', "_", s)\<close>: every match is one character.\<close>

definition re_sub_illegal :: "string \<Rightarrow> string" where
  "re_sub_illegal s = map (\<lambda>c. if illegal_char c then CHR ''_'' else c) s"

text \<open>\<^verbatim>\<open>s.strip(chars)\<close>.\<close>

definition strip_chars :: "string \<Rightarrow> string \<Rightarrow> string" where
  "strip_chars chars s =
     rev (dropWhile (\<lambda>c. c \<in> set chars) (rev (dropWhile (\<lambda>c. c \<in> set chars) s)))"

text \<open>\<^verbatim>\<open>s.rfind(c)\<close>: the highest index of \<open>c\<close>, or \<open>-1\<close>.\<close>

fun rfind :: "char \<Rightarrow> string \<Rightarrow> int" where
  "rfind c [] = - 1"
| "rfind c (x # xs) =
     (let r = rfind c xs in if 0 \<le> r then r + 1 else if x = c then 0 else - 1)"

text \<open>\<^verbatim>\<open>s[:n]\<close> for any integer \<open>n\<close>: a negative bound counts from the end and is clipped at 0.\<close>

definition slice_to :: "int \<Rightarrow> string \<Rightarrow> string" where
  "slice_to n s = (if 0 \<le> n then take (nat n) s else take (nat (int (length s) + n)) s)"

text \<open>\<^verbatim>\<open>sep.join(xs)\<close>.\<close>

fun join_sep :: "string \<Rightarrow> string list \<Rightarrow> string" where
  "join_sep sep [] = []"
| "join_sep sep [x] = x"
| "join_sep sep (x # y # ys) = x @ sep @ join_sep sep (y # ys)"

text \<open>\<^verbatim>\<open>s.split('/')\<close>.\<close>

fun split_sep :: "string \<Rightarrow> string list" where
  "split_sep [] = [[]]"
| "split_sep (c # cs) =
     (if c = CHR ''/'' then [] # split_sep cs
      else (case split_sep cs of [] \<Rightarrow> [[c]] | x # xs \<Rightarrow> (c # x) # xs))"

text \<open>\<^verbatim>\<open>str(n)\<close> for a non-negative integer: its decimal digits.\<close>

definition digit_char :: "nat \<Rightarrow> char" where
  "digit_char d = char_of (48 + d)"

fun str_nat :: "nat \<Rightarrow> string" where
  "str_nat n = (if n < 10 then [digit_char n] else str_nat (n div 10) @ [digit_char (n mod 10)])"

declare str_nat.simps [simp del]

text \<open>\<^verbatim>\<open>str(i)\<close> for any integer.\<close>

definition str_int :: "int \<Rightarrow> string" where
  "str_int i = (if i < 0 then CHR ''-'' # str_nat (nat (- i)) else str_nat (nat i))"

subsection \<open>Pure paths (\<^verbatim>\<open>pathlib\<close>, POSIX flavour)\<close>

text \<open>
  A \<^verbatim>\<open>Path\<close> is its root (\<^verbatim>\<open>''\<close>, \<^verbatim>\<open>'/'\<close> or \<^verbatim>\<open>'//'\<close>) and its parts without the root.
  \<^verbatim>\<open>Path(s)\<close> splits \<open>s\<close> at the separator and drops empty parts and \<^verbatim>\<open>'.'\<close>;
  \<^verbatim>\<open>name\<close>, \<^verbatim>\<open>suffix\<close>, \<^verbatim>\<open>stem\<close>, \<^verbatim>\<open>parent\<close>, the operator \<^verbatim>\<open>/\<close> and \<^verbatim>\<open>str\<close> follow the
  library's definitions.
\<close>

datatype path = MkPath (root: string) (parts: "string list")

definition splitroot :: "string \<Rightarrow> string \<times> string" where
  "splitroot p =
     (if take 1 p \<noteq> ''/'' then ([], p)
      else if take 1 (drop 1 p) \<noteq> ''/'' then (''/'', drop 1 p)
      else if take 1 (drop 2 p) = ''/'' then (''/'', drop 1 p)
      else (''//'', drop 2 p))"

definition Path :: "string \<Rightarrow> path" where
  "Path s = MkPath (fst (splitroot s))
                   (filter (\<lambda>x. x \<noteq> [] \<and> x \<noteq> ''.'') (split_sep (snd (splitroot s))))"

definition name :: "path \<Rightarrow> string" where
  "name p = (if parts p = [] then [] else last (parts p))"

definition suffix_of :: "string \<Rightarrow> string" where
  "suffix_of nm =
     (let i = rfind (CHR ''.'') nm
      in if 0 < i \<and> i < int (length nm) - 1 then drop (nat i) nm else [])"

definition stem_of :: "string \<Rightarrow> string" where
  "stem_of nm =
     (let i = rfind (CHR ''.'') nm
      in if 0 < i \<and> i < int (length nm) - 1 then take (nat i) nm else nm)"

definition suffix :: "path \<Rightarrow> string" where
  "suffix p = suffix_of (name p)"

definition stem :: "path \<Rightarrow> string" where
  "stem p = stem_of (name p)"

definition parent :: "path \<Rightarrow> path" where
  "parent p = (if parts p = [] then p else MkPath (root p) (butlast (parts p)))"

definition joinpath :: "path \<Rightarrow> string \<Rightarrow> path" where
  "joinpath p key =
     (if take 1 key = ''/'' then Path key
      else MkPath (root p) (parts p @ parts (Path key)))"

definition str_path :: "path \<Rightarrow> string" where
  "str_path p = (let s = root p @ join_sep ''/'' (parts p) in if s = [] then ''.'' else s)"

subsection \<open>\<^verbatim>\<open>_sanitize_filename\<close>\<close>

definition sanitize_filename :: "string \<Rightarrow> string" where
  "sanitize_filename filename =
     (let sanitized = re_sub_illegal filename;
          sanitized = strip_chars ''. '' sanitized;
          sanitized = (if sanitized = [] then ''downloaded_file'' else sanitized)
      in if length sanitized > 255
         then (let nm = stem (Path sanitized);
                   ext = suffix (Path sanitized);
                   max_name_len = 255 - int (length ext)
               in slice_to max_name_len nm @ ext)
         else sanitized)"

subsection \<open>Exceptions and the library calls the engine makes\<close>

text \<open>
  An exception is its class, as far as a handler of the engine tells classes apart, and
  its message \<^verbatim>\<open>str(e)\<close>.  \<open>OtherError\<close> stands for every other subclass of
  \<^verbatim>\<open>Exception\<close> (transport errors and timeouts of the HTTP client, \<^verbatim>\<open>OSError\<close>).
\<close>

datatype exn =
    ValueError string
  | IndexError string
  | HTTPStatusError string
  | OtherError string

fun str_exn :: "exn \<Rightarrow> string" where
  "str_exn (ValueError m) = m"
| "str_exn (IndexError m) = m"
| "str_exn (HTTPStatusError m) = m"
| "str_exn (OtherError m) = m"

text \<open>The two fields of \<^verbatim>\<open>urllib.parse.urlparse(url)\<close> that the engine reads.\<close>

record ParseResult =
  url_path :: string
  url_query :: string

text \<open>
  Library functions whose code is outside the repository are parameters of the model:
  \<^item> \<open>urlparse\<close>: \<^verbatim>\<open>urllib.parse.urlparse\<close>, which raises \<^verbatim>\<open>ValueError\<close> on some inputs;
  \<^item> \<open>unquote\<close>: \<^verbatim>\<open>urllib.parse.unquote\<close> (percent-decoding);
  \<^item> \<open>parse_qs\<close>: \<^verbatim>\<open>urllib.parse.parse_qs\<close>, a dictionary from names to lists of values;
  \<^item> \<open>py_int\<close>: \<^verbatim>\<open>int(s)\<close> on a string, the value or the message of its \<^verbatim>\<open>ValueError\<close>;
  \<^item> \<open>raise_for_status\<close>: \<^verbatim>\<open>response.raise_for_status()\<close> of the HTTP client, by the status
    code and the URL of the response: the message of the \<^verbatim>\<open>HTTPStatusError\<close> it raises, or
    \<open>None\<close> when it returns (a success status);
  \<^item> \<open>format_mb_float\<close>: \<^verbatim>\<open>f"{n / (1024 * 1024):.2f}"\<close> where the quotient is rounded to a
    double before it is printed (\<open>\<bar>n\<bar> \<ge> 2\<^sup>5\<^sup>3\<close>);
  \<^item> \<open>home\<close>: \<^verbatim>\<open>str(Path.home())\<close>.
\<close>

record lib =
  urlparse :: "string \<Rightarrow> exn + ParseResult"
  unquote :: "string \<Rightarrow> string"
  parse_qs :: "string \<Rightarrow> exn + (string \<Rightarrow> string list option)"
  py_int :: "string \<Rightarrow> string + int"
  raise_for_status :: "nat \<Rightarrow> string \<Rightarrow> string option"
  format_mb_float :: "int \<Rightarrow> string"
  home :: string

subsection \<open>\<^verbatim>\<open>_extract_filename_from_url\<close>\<close>

text \<open>
  The loop \<^verbatim>\<open>for key in ["file", "filename", "name"]\<close> with its \<^verbatim>\<open>break\<close>; indexing an
  empty list raises \<^verbatim>\<open>IndexError\<close>.
\<close>

fun query_filename ::
  "(string \<Rightarrow> string list option) \<Rightarrow> string list \<Rightarrow> string \<Rightarrow> exn + string" where
  "query_filename query_params [] filename = Inr filename"
| "query_filename query_params (key # keys) filename =
     (case query_params key of
        None \<Rightarrow> query_filename query_params keys filename
      | Some vs \<Rightarrow>
          (case vs of
             [] \<Rightarrow> Inl (IndexError ''list index out of range'')
           | v # _ \<Rightarrow> Inr v))"

text \<open>The body of the \<^verbatim>\<open>try\<close> block.\<close>

definition extract_filename_try :: "lib \<Rightarrow> string \<Rightarrow> exn + string" where
  "extract_filename_try L url =
     (case urlparse L url of
        Inl e \<Rightarrow> Inl e
      | Inr parsed_url \<Rightarrow>
          (let filename = name (Path (url_path parsed_url));
               filename = unquote L filename
           in case (if filename = []
                    then (case parse_qs L (url_query parsed_url) of
                            Inl e \<Rightarrow> Inl e
                          | Inr query_params \<Rightarrow>
                              query_filename query_params [''file'', ''filename'', ''name''] filename)
                    else Inr filename) of
                Inl e \<Rightarrow> Inl e
              | Inr filename \<Rightarrow>
                  (let filename = (if filename = [] then ''downloaded_file'' else filename);
                       filename = (if CHR ''.'' \<notin> set filename then filename @ ''.bin''
                                   else filename)
                   in Inr (sanitize_filename filename))))"

text \<open>\<^verbatim>\<open>except Exception: return "downloaded_file.bin"\<close>.\<close>

definition extract_filename_from_url :: "lib \<Rightarrow> string \<Rightarrow> string" where
  "extract_filename_from_url L url =
     (case extract_filename_try L url of
        Inl e \<Rightarrow> ''downloaded_file.bin''
      | Inr filename \<Rightarrow> filename)"

subsection \<open>The file system and the network\<close>

text \<open>
  The file system maps every existing path to a directory or to a regular file with its
  content; it is a finite map, as a file system is.  \<^verbatim>\<open>bytes\<close> are lists of octets, given
  by their values.  The world also records the HTTP requests issued so far, oldest first.
\<close>

type_synonym bytes = "nat list"

datatype node = Dir | File bytes

datatype request = HEAD string | GET string

record world =
  fs :: "(path, node) fmap"
  net :: "request list"

text \<open>\<^verbatim>\<open>p.exists()\<close>, \<^verbatim>\<open>p.unlink()\<close>, \<^verbatim>\<open>open(p, "wb")\<close>, \<^verbatim>\<open>f.write(chunk)\<close> on the file
  opened at \<open>p\<close>, \<^verbatim>\<open>p.stat().st_size\<close> and \<^verbatim>\<open>p.mkdir(parents=True, exist_ok=True)\<close>.\<close>

definition path_exists :: "(path, node) fmap \<Rightarrow> path \<Rightarrow> bool" where
  "path_exists files p \<longleftrightarrow> fmlookup files p \<noteq> None"

definition unlink :: "(path, node) fmap \<Rightarrow> path \<Rightarrow> (path, node) fmap" where
  "unlink files p = fmdrop p files"

definition open_wb :: "(path, node) fmap \<Rightarrow> path \<Rightarrow> (path, node) fmap" where
  "open_wb files p = fmupd p (File []) files"

definition write_bytes :: "(path, node) fmap \<Rightarrow> path \<Rightarrow> bytes \<Rightarrow> (path, node) fmap" where
  "write_bytes files p chunk =
     (case fmlookup files p of
        Some (File content) \<Rightarrow> fmupd p (File (content @ chunk)) files
      | _ \<Rightarrow> files)"

definition st_size :: "(path, node) fmap \<Rightarrow> path \<Rightarrow> int" where
  "st_size files p =
     (case fmlookup files p of
        Some (File content) \<Rightarrow> int (length content)
      | _ \<Rightarrow> 0)"

definition mkdir_parents :: "(path, node) fmap \<Rightarrow> path \<Rightarrow> (path, node) fmap" where
  "mkdir_parents files p =
     fold (\<lambda>k m. let d = MkPath (root p) (take k (parts p))
                  in if path_exists m d then m else fmupd d Dir m)
          [1 ..< Suc (length (parts p))] files"

text \<open>
  What the outside world answers during one download:
  \<^item> \<open>mkdir_error\<close>: the exception \<^verbatim>\<open>output_path.mkdir\<close> raises, if any;
  \<^item> \<open>head_result\<close>: the exception \<^verbatim>\<open>client.head\<close> raises, or the \<^verbatim>\<open>Content-Length\<close> header of
    its response (\<open>None\<close> when absent);
  \<^item> \<open>get_result\<close>: the exception \<^verbatim>\<open>client.stream("GET", ...)\<close> raises, or the response: its
    status code, its \<^verbatim>\<open>Content-Type\<close> header, the chunks \<^verbatim>\<open>aiter_bytes\<close> yields and the
    exception that ends the iteration early, if any;
  \<^item> \<open>open_error\<close>: the exception \<^verbatim>\<open>open(file_path, "wb")\<close> raises, if any;
  \<^item> \<open>write_error i\<close>: the exception \<^verbatim>\<open>f.write\<close> raises on chunk number \<open>i\<close>, if any
    (buffering is not modelled: a failing write fails at its call).
\<close>

record response =
  status_code :: nat
  resp_content_type :: "string option"
  chunks :: "bytes list"
  stream_error :: "exn option"

record env =
  mkdir_error :: "exn option"
  head_result :: "exn + string option"
  get_result :: "exn + response"
  open_error :: "exn option"
  write_error :: "nat \<Rightarrow> exn option"

subsection \<open>\<^verbatim>\<open>_get_unique_filepath\<close>\<close>

text \<open>The \<^verbatim>\<open>while True\<close> loop, from the current value of \<^verbatim>\<open>counter\<close>.\<close>

definition candidate :: "path \<Rightarrow> string \<Rightarrow> string \<Rightarrow> nat \<Rightarrow> path" where
  "candidate par stm sfx counter = joinpath par (stm @ ''_'' @ str_nat counter @ sfx)"

text \<open>
  The loop ends because two counters never give the same path and the file system holds
  finitely many paths.  The decimal numeral of a number determines it and has no
  separator, so the part of the path that holds the counter differs.
\<close>

lemma digit_char_inj: "d < 10 \<Longrightarrow> d' < 10 \<Longrightarrow> digit_char d = digit_char d' \<Longrightarrow> d = d'"
  by (simp add: digit_char_def char_of_quasi_inj)

lemma digit_char_not_sep: "d < 10 \<Longrightarrow> digit_char d \<noteq> CHR ''/''"
proof
  assume d: "d < 10" and "digit_char d = CHR ''/''"
  then have "of_char (digit_char d) = (of_char (CHR ''/'') :: nat)" by simp
  with d show False by (simp add: digit_char_def)
qed

lemma str_nat_ne: "str_nat n \<noteq> []"
  by (subst str_nat.simps) simp

lemma str_nat_inj: "str_nat n = str_nat m \<Longrightarrow> n = m"
proof (induction n arbitrary: m rule: str_nat.induct)
  case (1 n)
  show ?case
  proof (cases "n < 10")
    case True
    show ?thesis
    proof (cases "m < 10")
      case mt: True
      from "1.prems" True mt have "digit_char n = digit_char m"
        by (simp add: str_nat.simps[of n] str_nat.simps[of m])
      with True mt show ?thesis by (rule digit_char_inj)
    next
      case False
      with "1.prems" True have "[digit_char n] = str_nat (m div 10) @ [digit_char (m mod 10)]"
        by (simp add: str_nat.simps[of n] str_nat.simps[of m])
      then show ?thesis using str_nat_ne[of "m div 10"] by simp
    qed
  next
    case False
    show ?thesis
    proof (cases "m < 10")
      case True
      with "1.prems" False have "str_nat (n div 10) @ [digit_char (n mod 10)] = [digit_char m]"
        by (simp add: str_nat.simps[of n] str_nat.simps[of m])
      then show ?thesis using str_nat_ne[of "n div 10"] by simp
    next
      case mf: False
      with "1.prems" False have eq: "str_nat (n div 10) = str_nat (m div 10)"
         and d: "digit_char (n mod 10) = digit_char (m mod 10)"
        by (simp_all add: str_nat.simps[of n] str_nat.simps[of m])
      from "1.IH"[OF False eq] have "n div 10 = m div 10" .
      moreover from d have "n mod 10 = m mod 10" by (intro digit_char_inj) simp_all
      ultimately show ?thesis by (metis div_mult_mod_eq)
    qed
  qed
qed

lemma str_nat_no_sep: "CHR ''/'' \<notin> set (str_nat n)"
proof (induction n rule: str_nat.induct)
  case (1 n)
  show ?case
  proof (cases "n < 10")
    case True
    then show ?thesis using digit_char_not_sep[of n] by (auto simp: str_nat.simps[of n])
  next
    case False
    then show ?thesis using "1.IH" digit_char_not_sep[of "n mod 10"]
      by (auto simp: str_nat.simps[of n])
  qed
qed

lemma split_sep_ne: "split_sep s \<noteq> []"
  by (induction s) (auto split: list.splits)

lemma split_sep_no_sep: "CHR ''/'' \<notin> set s \<Longrightarrow> split_sep s = [s]"
  by (induction s) auto

lemma split_sep_append:
  "split_sep (a @ b) =
     butlast (split_sep a) @ [last (split_sep a) @ hd (split_sep b)] @ tl (split_sep b)"
proof (induction a)
  case Nil
  then show ?case using split_sep_ne[of b] by (cases "split_sep b") simp_all
next
  case (Cons c a)
  show ?case
  proof (cases "c = CHR ''/''")
    case True
    then show ?thesis using Cons split_sep_ne[of a] by simp
  next
    case False
    obtain x xs where xs: "split_sep a = x # xs" using split_sep_ne[of a] by (cases "split_sep a") auto
    show ?thesis
    proof (cases xs)
      case Nil
      with False xs Cons show ?thesis by simp
    next
      case (Cons y ys)
      with False xs Cons.IH show ?thesis by simp
    qed
  qed
qed


lemma splitroot_underscore:
  "\<exists>r u. \<forall>t. splitroot (stm @ CHR ''_'' # t) = (r, u @ CHR ''_'' # t)"
proof (cases stm)
  case Nil
  then show ?thesis by (simp add: splitroot_def)
next
  case a: (Cons a as)
  show ?thesis
  proof (cases "a = CHR ''/''")
    case False
    with a have "\<forall>t. splitroot (stm @ CHR ''_'' # t) = ([], stm @ CHR ''_'' # t)"
      by (simp add: splitroot_def)
    then show ?thesis by blast
  next
    case sa: True
    show ?thesis
    proof (cases as)
      case Nil
      with a sa have "\<forall>t. splitroot (stm @ CHR ''_'' # t) = (''/'', [] @ CHR ''_'' # t)"
        by (simp add: splitroot_def)
      then show ?thesis by blast
    next
      case b: (Cons b bs)
      show ?thesis
      proof (cases "b = CHR ''/''")
        case False
        with a sa b have "\<forall>t. splitroot (stm @ CHR ''_'' # t) = (''/'', as @ CHR ''_'' # t)"
          by (simp add: splitroot_def)
        then show ?thesis by blast
      next
        case sb: True
        show ?thesis
        proof (cases bs)
          case Nil
          with a sa b sb have "\<forall>t. splitroot (stm @ CHR ''_'' # t) = (''//'', [] @ CHR ''_'' # t)"
            by (simp add: splitroot_def)
          then show ?thesis by blast
        next
          case c: (Cons c cs)
          show ?thesis
          proof (cases "c = CHR ''/''")
            case True
            with a sa b sb c have "\<forall>t. splitroot (stm @ CHR ''_'' # t) = (''/'', as @ CHR ''_'' # t)"
              by (simp add: splitroot_def)
            then show ?thesis by blast
          next
            case False
            with a sa b sb c have "\<forall>t. splitroot (stm @ CHR ''_'' # t) = (''//'', bs @ CHR ''_'' # t)"
              by (simp add: splitroot_def)
            then show ?thesis by blast
          qed
        qed
      qed
    qed
  qed
qed

lemma split_sep_middle:
  assumes "CHR ''/'' \<notin> set d"
  shows "split_sep (u @ CHR ''_'' # d @ v) =
           butlast (split_sep u) @ [last (split_sep u) @ CHR ''_'' # d @ hd (split_sep v)]
             @ tl (split_sep v)"
proof -
  have "split_sep (d @ v) = [d @ hd (split_sep v)] @ tl (split_sep v)"
    using split_sep_append[of d v] assms by (simp add: split_sep_no_sep)
  then have "split_sep (CHR ''_'' # d @ v) = [CHR ''_'' # d @ hd (split_sep v)] @ tl (split_sep v)"
    by simp
  then show ?thesis using split_sep_append[of u "CHR ''_'' # d @ v"] by simp
qed

lemma parts_Path_inj:
  assumes "parts (Path (stm @ ''_'' @ str_nat j @ sfx)) = parts (Path (stm @ ''_'' @ str_nat k @ sfx))"
  shows "j = k"
proof -
  obtain r u where ru: "\<And>t. splitroot (stm @ CHR ''_'' # t) = (r, u @ CHR ''_'' # t)"
    using splitroot_underscore[of stm] by blast
  let ?ok = "\<lambda>x. x \<noteq> [] \<and> x \<noteq> ''.''"
  let ?m = "\<lambda>n. last (split_sep u) @ CHR ''_'' # str_nat n @ hd (split_sep sfx)"
  have ok: "?ok (?m n)" for n
  proof -
    have "CHR ''_'' \<in> set (?m n)" by simp
    moreover have "CHR ''_'' \<notin> set []" "CHR ''_'' \<notin> set ''.''" by simp_all
    ultimately show ?thesis by metis
  qed
  have P: "parts (Path (stm @ ''_'' @ str_nat n @ sfx)) =
             filter ?ok (butlast (split_sep u)) @ [?m n] @ filter ?ok (tl (split_sep sfx))" for n
    using ok[of n] by (simp add: Path_def ru split_sep_middle[OF str_nat_no_sep])
  from assms have "?m j = ?m k" unfolding P by simp
  then have "str_nat j = str_nat k" by simp
  then show ?thesis by (rule str_nat_inj)
qed

lemma take1_underscore: "take 1 (stm @ CHR ''_'' # t) = ''/'' \<longleftrightarrow> take 1 stm = ''/''"
  by (cases stm) auto

lemma candidate_inj: "candidate par stm sfx j = candidate par stm sfx k \<Longrightarrow> j = k"
proof -
  assume eq: "candidate par stm sfx j = candidate par stm sfx k"
  let ?key = "\<lambda>n. stm @ ''_'' @ str_nat n @ sfx"
  have same: "take 1 (?key j) = ''/'' \<longleftrightarrow> take 1 (?key k) = ''/''"
    using take1_underscore[of stm] by simp
  have "parts (Path (?key j)) = parts (Path (?key k))"
  proof (cases "take 1 (?key j) = ''/''")
    case True
    with same eq show ?thesis by (simp add: candidate_def joinpath_def)
  next
    case False
    with same eq show ?thesis by (simp add: candidate_def joinpath_def)
  qed
  then show "j = k" by (rule parts_Path_inj)
qed

lemma finite_taken: "finite {k. path_exists files (candidate par stm sfx k)}"
proof -
  have "{k. path_exists files (candidate par stm sfx k)}
          = candidate par stm sfx -` fmdom' files"
    by (auto simp: path_exists_def fmlookup_dom'_iff)
  moreover have "inj (candidate par stm sfx)"
    by (rule injI) (rule candidate_inj)
  ultimately show ?thesis by (simp add: finite_vimageI)
qed

function unique_loop :: "(path, node) fmap \<Rightarrow> path \<Rightarrow> string \<Rightarrow> string \<Rightarrow> nat \<Rightarrow> path" where
  "unique_loop files par stm sfx counter =
     (let new_path = joinpath par (stm @ ''_'' @ str_nat counter @ sfx)
      in if \<not> path_exists files new_path then new_path
         else unique_loop files par stm sfx (counter + 1))"
  by pat_completeness auto
termination
proof (relation "measure (\<lambda>(files, par, stm, sfx, counter).
                   card {k. counter \<le> k \<and> path_exists files (candidate par stm sfx k)})")
  show "wf (measure (\<lambda>(files, par, stm, sfx, counter).
                   card {k. counter \<le> k \<and> path_exists files (candidate par stm sfx k)}))"
    by simp
next
  fix files :: "(path, node) fmap" and par stm sfx counter new_path
  assume np: "new_path = joinpath par (stm @ ''_'' @ str_nat counter @ sfx)"
     and ex: "\<not> \<not> path_exists files new_path"
  let ?S = "\<lambda>c. {k. c \<le> k \<and> path_exists files (candidate par stm sfx k)}"
  have fin: "finite (?S counter)"
    by (rule finite_subset[OF _ finite_taken[of files par stm sfx]]) auto
  have "counter \<in> ?S counter" using np ex by (simp add: candidate_def)
  moreover have "counter \<notin> ?S (counter + 1)" by simp
  moreover have "?S (counter + 1) \<subseteq> ?S counter" by auto
  ultimately have "?S (counter + 1) \<subset> ?S counter" by blast
  then have "card (?S (counter + 1)) < card (?S counter)"
    using fin by (rule psubset_card_mono[rotated])
  then show "((files, par, stm, sfx, counter + 1), files, par, stm, sfx, counter)
               \<in> measure (\<lambda>(files, par, stm, sfx, counter).
                   card {k. counter \<le> k \<and> path_exists files (candidate par stm sfx k)})"
    by simp
qed

declare unique_loop.simps [simp del]

definition get_unique_filepath :: "(path, node) fmap \<Rightarrow> path \<Rightarrow> path" where
  "get_unique_filepath files file_path =
     (if \<not> path_exists files file_path then file_path
      else unique_loop files (parent file_path) (stem file_path) (suffix file_path) 1)"

subsection \<open>Results and error messages\<close>

record DownloadResult =
  file_path :: string
  file_name :: string
  file_size :: int
  content_type :: "string option"
  success :: bool
  error :: "string option"

record DownloadResponse =
  results :: "DownloadResult list"
  success_count :: int
  failed_count :: int

text \<open>
  \<^verbatim>\<open>f"{n / (1024 * 1024):.2f}"\<close>.  For \<open>\<bar>n\<bar> < 2\<^sup>5\<^sup>3\<close> the quotient is an exact double, and
  the format rounds its exact value to two decimals, ties to even: in hundredths the
  value is \<open>25 * \<bar>n\<bar> / 2\<^sup>1\<^sup>8\<close>.  The sign is printed also when the digits are zero.
\<close>

definition two_digits :: "int \<Rightarrow> string" where
  "two_digits h = [digit_char (nat (h div 10)), digit_char (nat (h mod 10))]"

definition format_mb_exact :: "int \<Rightarrow> string" where
  "format_mb_exact n =
     (let q = 25 * \<bar>n\<bar>;
          f = q div 2 ^ 18;
          r = q mod 2 ^ 18;
          h = (if r > 2 ^ 17 \<or> (r = 2 ^ 17 \<and> odd f) then f + 1 else f)
      in (if n < 0 then ''-'' else []) @ str_int (h div 100) @ ''.'' @ two_digits (h mod 100))"

definition format_mb :: "lib \<Rightarrow> int \<Rightarrow> string" where
  "format_mb L n = (if \<bar>n\<bar> < 2 ^ 53 then format_mb_exact n else format_mb_float L n)"

definition invalid_url_msg :: string where
  "invalid_url_msg = ''Invalid URL format. URL must start with http:// or https://''"

definition file_size_exceeds_msg :: "lib \<Rightarrow> int \<Rightarrow> int \<Rightarrow> string" where
  "file_size_exceeds_msg L sz max_size_mb =
     ''File size ('' @ format_mb L sz @ '' MB) exceeds maximum allowed size (''
       @ str_int max_size_mb @ '' MB)''"

definition exceeded_during_download_msg :: "lib \<Rightarrow> int \<Rightarrow> int \<Rightarrow> string" where
  "exceeded_during_download_msg L downloaded max_size_mb =
     ''File exceeded size limit during download ('' @ format_mb L downloaded @ '' MB > ''
       @ str_int max_size_mb @ '' MB)''"

subsection \<open>\<^verbatim>\<open>_download_single_file_internal\<close>\<close>

text \<open>
  The pre-flight block: \<^verbatim>\<open>try: head_response = await client.head(...) ...
  except httpx.HTTPStatusError: pass\<close>.  Its value is the exception that leaves the block.
\<close>

definition probe :: "lib \<Rightarrow> env \<Rightarrow> int \<Rightarrow> int \<Rightarrow> exn option" where
  "probe L E max_size_bytes max_size_mb =
     (case (case head_result E of
              Inl e \<Rightarrow> Some e
            | Inr content_length \<Rightarrow>
                (case content_length of
                   None \<Rightarrow> None
                 | Some s \<Rightarrow>
                     if s = [] then None
                     else (case py_int L s of
                             Inl m \<Rightarrow> Some (ValueError m)
                           | Inr sz \<Rightarrow>
                               if sz > max_size_bytes
                               then Some (ValueError (file_size_exceeds_msg L sz max_size_mb))
                               else None))) of
        Some (HTTPStatusError m) \<Rightarrow> None
      | r \<Rightarrow> r)"

text \<open>
  The loop \<^verbatim>\<open>async for chunk in response.aiter_bytes(chunk_size=8192)\<close> on the open file:
  the exception that leaves it, if any, and the file system after it.  (The local
  variables \<^verbatim>\<open>file_path\<close> and \<^verbatim>\<open>content_type\<close> are \<open>fpath\<close> and \<open>ctype\<close> here, the names
  being taken by the fields of the result.)
\<close>

fun write_chunks ::
  "lib \<Rightarrow> env \<Rightarrow> response \<Rightarrow> path \<Rightarrow> int \<Rightarrow> int \<Rightarrow> bytes list \<Rightarrow> nat \<Rightarrow> int
     \<Rightarrow> (path, node) fmap \<Rightarrow> exn option \<times> (path, node) fmap" where
  "write_chunks L E resp fpath max_size_bytes max_size_mb [] i downloaded files =
     (stream_error resp, files)"
| "write_chunks L E resp fpath max_size_bytes max_size_mb (chunk # rest) i downloaded files =
     (let downloaded = downloaded + int (length chunk)
      in if downloaded > max_size_bytes
         then (let files = (if path_exists files fpath then unlink files fpath
                            else files)
               in (Some (ValueError (exceeded_during_download_msg L downloaded max_size_mb)),
                   files))
         else (case write_error E i of
                 Some e \<Rightarrow> (Some e, files)
               | None \<Rightarrow>
                   write_chunks L E resp fpath max_size_bytes max_size_mb rest (Suc i)
                     downloaded (write_bytes files fpath chunk)))"

text \<open>The block \<^verbatim>\<open>async with client.stream("GET", url, headers=headers) as response\<close>.\<close>

definition stream_body ::
  "lib \<Rightarrow> env \<Rightarrow> string \<Rightarrow> path \<Rightarrow> string \<Rightarrow> int \<Rightarrow> int \<Rightarrow> world
     \<Rightarrow> (exn + DownloadResult) \<times> world" where
  "stream_body L E url fpath final_filename max_size_bytes max_size_mb w =
     (let w = w\<lparr>net := net w @ [GET url]\<rparr>
      in case get_result E of
           Inl e \<Rightarrow> (Inl e, w)
         | Inr resp \<Rightarrow>
             (case raise_for_status L (status_code resp) url of
                Some m \<Rightarrow> (Inl (HTTPStatusError m), w)
              | None \<Rightarrow>
               (let ctype = resp_content_type resp
                in case open_error E of
                     Some e \<Rightarrow> (Inl e, w)
                   | None \<Rightarrow>
                       (case write_chunks L E resp fpath max_size_bytes max_size_mb
                               (chunks resp) 0 0 (open_wb (fs w) fpath) of
                          (Some e, files) \<Rightarrow> (Inl e, w\<lparr>fs := files\<rparr>)
                        | (None, files) \<Rightarrow>
                            if \<not> path_exists files fpath
                            then (Inl (ValueError ''File was not created''), w\<lparr>fs := files\<rparr>)
                            else (Inr \<lparr>file_path = str_path fpath,
                                       file_name = final_filename,
                                       file_size = st_size files fpath,
                                       content_type = ctype,
                                       success = True,
                                       error = None\<rparr>,
                                  w\<lparr>fs := files\<rparr>)))))"

text \<open>
  The \<^verbatim>\<open>try\<close> block: its outcome, the value of the variable \<^verbatim>\<open>filename\<close> when the block is
  left (the handler reads it), and the world.
\<close>

definition download_try ::
  "lib \<Rightarrow> env \<Rightarrow> world \<Rightarrow> string \<Rightarrow> string \<Rightarrow> string option \<Rightarrow> int \<Rightarrow> int
     \<Rightarrow> (exn + DownloadResult) \<times> string option \<times> world" where
  "download_try L E w url output_dir filename timeout max_size_mb =
     (if \<not> (prefix ''http://'' url \<or> prefix ''https://'' url)
      then (Inl (ValueError invalid_url_msg), filename, w)
      else
        (let output_path = Path output_dir
         in case mkdir_error E of
              Some e \<Rightarrow> (Inl e, filename, w)
            | None \<Rightarrow>
                (let w = w\<lparr>fs := mkdir_parents (fs w) output_path\<rparr>;
                     filename =
                       (case filename of
                          None \<Rightarrow> extract_filename_from_url L url
                        | Some f \<Rightarrow>
                            if f = [] then extract_filename_from_url L url
                            else sanitize_filename f);
                     fpath = get_unique_filepath (fs w) (joinpath output_path filename);
                     final_filename = name fpath;
                     max_size_bytes = max_size_mb * 1024 * 1024;
                     w = w\<lparr>net := net w @ [HEAD url]\<rparr>
                 in case probe L E max_size_bytes max_size_mb of
                      Some e \<Rightarrow> (Inl e, Some filename, w)
                    | None \<Rightarrow>
                        (case stream_body L E url fpath final_filename max_size_bytes
                                max_size_mb w of
                           (r, w') \<Rightarrow> (r, Some filename, w')))))"

text \<open>The function: the \<^verbatim>\<open>try\<close> block and the handler \<^verbatim>\<open>except Exception as e\<close>.\<close>

definition download_single_file_internal ::
  "lib \<Rightarrow> env \<Rightarrow> world \<Rightarrow> string \<Rightarrow> string \<Rightarrow> string option \<Rightarrow> int \<Rightarrow> int
     \<Rightarrow> DownloadResult \<times> world" where
  "download_single_file_internal L E w url output_dir filename timeout max_size_mb =
     (case download_try L E w url output_dir filename timeout max_size_mb of
        (Inr r, fn, w') \<Rightarrow> (r, w')
      | (Inl e, fn, w') \<Rightarrow>
          (\<lparr>file_path = [],
            file_name = (case fn of None \<Rightarrow> [] | Some f \<Rightarrow> f),
            file_size = 0,
            content_type = None,
            success = False,
            error = Some (str_exn e)\<rparr>,
           w'))"

subsection \<open>The tools \<^verbatim>\<open>download_single_file\<close> and \<^verbatim>\<open>download_files\<close>\<close>

definition default_download_dir :: "lib \<Rightarrow> string" where
  "default_download_dir L =
     str_path (joinpath (joinpath (Path (home L)) ''Downloads'') ''mcp_downloads'')"

definition download_single_file ::
  "lib \<Rightarrow> env \<Rightarrow> world \<Rightarrow> string \<Rightarrow> string option \<Rightarrow> string option \<Rightarrow> int \<Rightarrow> int
     \<Rightarrow> DownloadResult \<times> world" where
  "download_single_file L E w url output_dir filename timeout max_size_mb =
     (let output_dir = (case output_dir of None \<Rightarrow> default_download_dir L | Some d \<Rightarrow> d)
      in download_single_file_internal L E w url output_dir filename timeout max_size_mb)"

text \<open>
  \<^verbatim>\<open>asyncio.gather(*tasks, return_exceptions=False)\<close> over one task per URL.  Every task
  starts in the world of the call: a task resolves its file name before it first waits
  for the network, hence before any task of the batch has created its file.  Task \<open>i\<close>
  gets the answers \<open>Es i\<close>.  The result list is in request order, as \<^verbatim>\<open>gather\<close> returns it;
  no task raises, so \<^verbatim>\<open>gather\<close> never re-raises.  The model gives the response of the
  tool; how the transfers of tasks that resolve to the same path interleave is not
  modelled.
\<close>

definition gather_downloads ::
  "lib \<Rightarrow> (nat \<Rightarrow> env) \<Rightarrow> world \<Rightarrow> string list \<Rightarrow> string \<Rightarrow> int \<Rightarrow> int
     \<Rightarrow> DownloadResult list" where
  "gather_downloads L Es w urls output_dir timeout max_size_mb =
     map (\<lambda>(i, url).
            fst (download_single_file_internal L (Es i) w url output_dir None timeout
                   max_size_mb))
         (enumerate 0 urls)"

definition download_files ::
  "lib \<Rightarrow> (nat \<Rightarrow> env) \<Rightarrow> world \<Rightarrow> string list \<Rightarrow> string option \<Rightarrow> int \<Rightarrow> int
     \<Rightarrow> DownloadResponse" where
  "download_files L Es w urls output_dir timeout max_size_mb =
     (let output_dir = (case output_dir of None \<Rightarrow> default_download_dir L | Some d \<Rightarrow> d);
          rs = gather_downloads L Es w urls output_dir timeout max_size_mb;
          success_count = int (length (filter success rs));
          failed_count = int (length rs) - success_count
      in \<lparr>results = rs, success_count = success_count, failed_count = failed_count\<rparr>)"

subsection \<open>Notions used to state the properties\<close>

text \<open>The number of bytes of a list of chunks.\<close>

definition total :: "bytes list \<Rightarrow> int" where
  "total cs = int (length (concat cs))"

text \<open>The scheme of a URL: what stands before its first colon.\<close>

definition url_scheme :: "string \<Rightarrow> string" where
  "url_scheme url = takeWhile (\<lambda>c. c \<noteq> CHR '':'') url"

text \<open>
  The value of \<^verbatim>\<open>sanitized\<close> in \<^verbatim>\<open>_sanitize_filename\<close> before the length is looked at: illegal
  characters replaced, dots and spaces stripped, the placeholder if nothing is left.
\<close>

definition cleaned :: "string \<Rightarrow> string" where
  "cleaned s = (let c = strip_chars ''. '' (re_sub_illegal s)
                in if c = [] then ''downloaded_file'' else c)"

text \<open>
  No part of a path object holds a separator: \<^verbatim>\<open>Path(s)\<close> and \<^verbatim>\<open>/\<close> split at it.
\<close>

definition wf_path :: "path \<Rightarrow> bool" where
  "wf_path p \<longleftrightarrow> list_all (\<lambda>x. CHR ''/'' \<notin> set x) (parts p)"

text \<open>
  The derivation of a filename from a URL, as the specification words it: the last part
  of the URL path, percent-decoded; if that is empty, the value of the first of the query
  parameters \<^verbatim>\<open>file\<close>, \<^verbatim>\<open>filename\<close>, \<^verbatim>\<open>name\<close> that the query has; if that is empty too, the
  placeholder; \<^verbatim>\<open>.bin\<close> appended to a name without a dot; the result sanitized; and the
  placeholder with \<^verbatim>\<open>.bin\<close> on any error.
\<close>

definition with_default_extension :: "string \<Rightarrow> string" where
  "with_default_extension n = (if CHR ''.'' \<in> set n then n else n @ ''.bin'')"

definition derived_name_spec :: "lib \<Rightarrow> string \<Rightarrow> string" where
  "derived_name_spec L url =
     (case urlparse L url of
        Inl e \<Rightarrow> ''downloaded_file.bin''
      | Inr parsed \<Rightarrow>
          (let from_path = unquote L (name (Path (url_path parsed)))
           in if from_path \<noteq> [] then sanitize_filename (with_default_extension from_path)
              else (case parse_qs L (url_query parsed) of
                      Inl e \<Rightarrow> ''downloaded_file.bin''
                    | Inr params \<Rightarrow>
                        (case find (\<lambda>key. params key \<noteq> None) [''file'', ''filename'', ''name''] of
                           None \<Rightarrow> sanitize_filename (with_default_extension ''downloaded_file'')
                         | Some key \<Rightarrow>
                             (case params key of
                                Some (v # vs) \<Rightarrow>
                                  sanitize_filename
                                    (with_default_extension
                                       (if v = [] then ''downloaded_file'' else v))
                              | _ \<Rightarrow> ''downloaded_file.bin'')))))"

text \<open>
  The name a download gives its file and the path it writes to, as the \<^verbatim>\<open>try\<close> block
  computes them (\<^verbatim>\<open>filename\<close> and \<^verbatim>\<open>file_path\<close>), and the world in which the pre-flight
  request has been issued.
\<close>

definition chosen_filename :: "lib \<Rightarrow> string \<Rightarrow> string option \<Rightarrow> string" where
  "chosen_filename L url filename =
     (case filename of
        None \<Rightarrow> extract_filename_from_url L url
      | Some f \<Rightarrow> if f = [] then extract_filename_from_url L url else sanitize_filename f)"

definition target_path :: "lib \<Rightarrow> world \<Rightarrow> string \<Rightarrow> string \<Rightarrow> string option \<Rightarrow> path" where
  "target_path L w url output_dir filename =
     get_unique_filepath (mkdir_parents (fs w) (Path output_dir))
       (joinpath (Path output_dir) (chosen_filename L url filename))"

definition probed_world :: "world \<Rightarrow> string \<Rightarrow> string \<Rightarrow> world" where
  "probed_world w url output_dir =
     w\<lparr>fs := mkdir_parents (fs w) (Path output_dir), net := net w @ [HEAD url]\<rparr>"

subsection \<open>A sample library and sample answers, for the examples\<close>

text \<open>
  The examples below run the engine on concrete inputs.  They need some library and some
  answers of the outside world: a small URL splitter (path from the first slash after
  \<^verbatim>\<open>://\<close> up to \<^verbatim>\<open>?\<close>, query after it), the identity for percent-decoding, a query parser
  for a single \<^verbatim>\<open>key=value\<close> pair, a decimal reader, and a \<^verbatim>\<open>raise_for_status\<close> that raises on
  every status outside 200 to 299.
\<close>

definition sample_urlparse :: "string \<Rightarrow> exn + ParseResult" where
  "sample_urlparse u =
     (let rest = drop 3 (dropWhile (\<lambda>c. c \<noteq> CHR '':'') u);
          pq = dropWhile (\<lambda>c. c \<noteq> CHR ''/'') rest
      in Inr \<lparr>url_path = takeWhile (\<lambda>c. c \<noteq> CHR ''?'') pq,
               url_query = drop 1 (dropWhile (\<lambda>c. c \<noteq> CHR ''?'') pq)\<rparr>)"

definition sample_parse_qs :: "string \<Rightarrow> exn + (string \<Rightarrow> string list option)" where
  "sample_parse_qs q =
     Inr (\<lambda>k. if CHR ''='' \<in> set q \<and> takeWhile (\<lambda>c. c \<noteq> CHR ''='') q = k
                   \<and> drop 1 (dropWhile (\<lambda>c. c \<noteq> CHR ''='') q) \<noteq> []
               then Some [drop 1 (dropWhile (\<lambda>c. c \<noteq> CHR ''='') q)] else None)"

definition sample_int :: "string \<Rightarrow> string + int" where
  "sample_int s =
     (if s \<noteq> [] \<and> list_all (\<lambda>c. 48 \<le> (of_char c :: nat) \<and> (of_char c :: nat) \<le> 57) s
      then Inr (foldl (\<lambda>a c. 10 * a + (int (of_char c) - 48)) 0 s)
      else Inl (''invalid literal for int() with base 10: '' @ s))"

definition sample_lib :: lib where
  "sample_lib =
     \<lparr>urlparse = sample_urlparse,
      unquote = (\<lambda>s. s),
      parse_qs = sample_parse_qs,
      py_int = sample_int,
      raise_for_status =
        (\<lambda>code url. if 200 \<le> code \<and> code < 300 then None
                     else Some (''status '' @ str_nat code @ '' for url '' @ url)),
      format_mb_float = (\<lambda>n. ''inf''),
      home = ''/home/user''\<rparr>"

text \<open>
  A server that answers the probe without a \<^verbatim>\<open>Content-Length\<close> and the request with status
  200 and the given chunks; nothing fails on the local side.
\<close>

definition serving :: "bytes list \<Rightarrow> env" where
  "serving cs =
     \<lparr>mkdir_error = None,
      head_result = Inr None,
      get_result = Inr \<lparr>status_code = 200, resp_content_type = Some ''application/json'',
                        chunks = cs, stream_error = None\<rparr>,
      open_error = None,
      write_error = (\<lambda>i. None)\<rparr>"


definition empty_world :: world where
  "empty_world = \<lparr>fs = fmempty, net = []\<rparr>"

section \<open>Filename sanitization\<close>

text \<open>
  Claim C5.  The claim: for every input string the sanitized filename has none of the
  characters \<^verbatim>\<open>< > : " / \ | ? *\<close> and no control character, has no leading or trailing
  dot or space, is the placeholder when it would be empty, and has at most 255
  characters, the stem being truncated and the extension kept.

  The code computes the room left for the stem as \<^verbatim>\<open>255 - len(ext)\<close> and slices the stem
  with it.  For the 302 characters \<^verbatim>\<open>"a." + "b" * 300\<close> the extension has 301 characters,
  the bound is \<open>-46\<close>, the slice of the stem \<^verbatim>\<open>"a"\<close> is empty, and the function
  returns the extension alone: 301 characters, the first one a dot.
\<close>

theorem sanitize_filename_long_extension:
  "sanitize_filename (''a.'' @ replicate 300 (CHR ''b'')) = CHR ''.'' # replicate 300 (CHR ''b'')
   \<and> length (sanitize_filename (''a.'' @ replicate 300 (CHR ''b''))) = 301"
  by code_simp

text \<open>
  Claim C10.  The claim: \<^verbatim>\<open>_sanitize_filename\<close> is idempotent.

  The code strips dots and spaces before it truncates, so the truncation can end in the
  middle of a run of spaces.  For \<^verbatim>\<open>"a" + " " * 254 + "bb"\<close> (257 characters, no dot) the
  result is the first 255 characters, which end with a space; sanitizing that result
  strips the spaces and gives \<^verbatim>\<open>"a"\<close>.
\<close>

theorem sanitize_filename_twice_differs:
  "sanitize_filename (''a'' @ replicate 254 (CHR '' '') @ ''bb'') = ''a'' @ replicate 254 (CHR '' '')
   \<and> sanitize_filename (sanitize_filename (''a'' @ replicate 254 (CHR '' '') @ ''bb'')) = ''a''"
  by code_simp

section \<open>The streaming loop and the shape of a download\<close>

lemma total_simps [simp]:
  "total [] = 0"
  "total (c # cs) = int (length c) + total cs"
  "total (xs @ ys) = total xs + total ys"
  by (simp_all add: total_def)

lemma write_chunks_other:
  "q \<noteq> fpath \<Longrightarrow>
   fmlookup (snd (write_chunks L E resp fpath mb mm cs i d files)) q = fmlookup files q"
proof (induction cs arbitrary: i d files)
  case Nil
  then show ?case by simp
next
  case (Cons c cs)
  then show ?case
    by (auto simp: Let_def unlink_def write_bytes_def split: option.splits node.splits)
qed

lemma write_chunks_completed:
  "fst (write_chunks L E resp fpath mb mm cs i d files) = None \<Longrightarrow>
   fmlookup files fpath = Some (File content) \<Longrightarrow>
   fmlookup (snd (write_chunks L E resp fpath mb mm cs i d files)) fpath
     = Some (File (content @ concat cs))"
proof (induction cs arbitrary: i d files content)
  case Nil
  then show ?case by simp
next
  case (Cons c cs)
  from Cons.prems(1) have le: "\<not> d + int (length c) > mb" and we: "write_error E i = None"
    by (auto simp: Let_def split: if_splits option.splits)
  have lk: "fmlookup (write_bytes files fpath c) fpath = Some (File (content @ c))"
    using Cons.prems(2) by (simp add: write_bytes_def)
  from Cons.prems(1) le we
  have "fst (write_chunks L E resp fpath mb mm cs (Suc i) (d + int (length c))
               (write_bytes files fpath c)) = None"
    by (simp add: Let_def)
  from Cons.IH[OF this lk] le we show ?case by (simp add: Let_def)
qed


lemma write_chunks_exceeded:
  assumes "pre = [] \<or> d + total pre \<le> mb"
      and "d + total pre + int (length c) > mb"
      and "\<forall>j < length pre. write_error E (i + j) = None"
  shows "write_chunks L E resp fpath mb mm (pre @ c # post) i d files =
           (Some (ValueError (exceeded_during_download_msg L (d + total pre + int (length c)) mm)),
            snd (write_chunks L E resp fpath mb mm (pre @ c # post) i d files))
         \<and> \<not> path_exists (snd (write_chunks L E resp fpath mb mm (pre @ c # post) i d files)) fpath"
  using assms
proof (induction pre arbitrary: i d files)
  case Nil
  then show ?case by (simp add: Let_def unlink_def path_exists_def)
next
  case (Cons p pre)
  from Cons.prems(1) have le: "d + int (length p) + total pre \<le> mb" by simp
  have nonneg: "0 \<le> total pre" by (simp add: total_def)
  from le nonneg have ok: "\<not> d + int (length p) > mb" by linarith
  from Cons.prems(3) have we: "write_error E i = None" by force
  from Cons.prems(3) have rest: "\<forall>j < length pre. write_error E (Suc i + j) = None" by force
  have 1: "pre = [] \<or> (d + int (length p)) + total pre \<le> mb" using le by simp
  have 2: "(d + int (length p)) + total pre + int (length c) > mb" using Cons.prems(2) by simp
  from Cons.IH[OF 1 2 rest, of "write_bytes files fpath p"] ok we
  show ?case by (simp add: Let_def add.assoc)
qed

lemma url_scheme_http:
  "prefix ''http://'' url \<Longrightarrow> url_scheme url = ''http''"
  "prefix ''https://'' url \<Longrightarrow> url_scheme url = ''https''"
  by (auto simp: prefix_def url_scheme_def)

lemma single_invalid_url:
  assumes "\<not> (prefix ''http://'' url \<or> prefix ''https://'' url)"
  shows "download_single_file_internal L E w url output_dir filename timeout max_size_mb =
           (\<lparr>file_path = [], file_name = (case filename of None \<Rightarrow> [] | Some f \<Rightarrow> f),
             file_size = 0, content_type = None, success = False,
             error = Some invalid_url_msg\<rparr>, w)"
  using assms by (simp add: download_single_file_internal_def download_try_def)

lemma stream_body_cases:
  "(\<exists>e w'. stream_body L E url fpath final_filename mb mm w = (Inl e, w'))
   \<or> (\<exists>resp files.
         get_result E = Inr resp \<and>
         fst (write_chunks L E resp fpath mb mm (chunks resp) 0 0 (open_wb (fs w) fpath)) = None \<and>
         files = snd (write_chunks L E resp fpath mb mm (chunks resp) 0 0 (open_wb (fs w) fpath)) \<and>
         stream_body L E url fpath final_filename mb mm w =
           (Inr \<lparr>file_path = str_path fpath, file_name = final_filename,
                 file_size = st_size files fpath, content_type = resp_content_type resp,
                 success = True, error = None\<rparr>,
            w\<lparr>net := net w @ [GET url], fs := files\<rparr>))"
  by (auto simp: stream_body_def Let_def split: sum.splits option.splits prod.splits)


lemma str_path_ne: "str_path p \<noteq> []"
  by (simp add: str_path_def Let_def)

lemma stream_body_success:
  assumes "stream_body L E url fpath final_filename mb mm w = (Inr r, w')"
  shows "\<exists>resp. get_result E = Inr resp \<and>
           r = \<lparr>file_path = str_path fpath, file_name = final_filename,
                 file_size = total (chunks resp), content_type = resp_content_type resp,
                 success = True, error = None\<rparr> \<and>
           fmlookup (fs w') fpath = Some (File (concat (chunks resp))) \<and>
           net w' = net w @ [GET url]"
proof -
  from assms stream_body_cases[of L E url fpath final_filename mb mm w]
  obtain resp files where g: "get_result E = Inr resp"
    and ok: "fst (write_chunks L E resp fpath mb mm (chunks resp) 0 0 (open_wb (fs w) fpath)) = None"
    and files: "files = snd (write_chunks L E resp fpath mb mm (chunks resp) 0 0 (open_wb (fs w) fpath))"
    and sb: "stream_body L E url fpath final_filename mb mm w =
           (Inr \<lparr>file_path = str_path fpath, file_name = final_filename,
                 file_size = st_size files fpath, content_type = resp_content_type resp,
                 success = True, error = None\<rparr>,
            w\<lparr>net := net w @ [GET url], fs := files\<rparr>)"
    by auto
  have "fmlookup (open_wb (fs w) fpath) fpath = Some (File [])" by (simp add: open_wb_def)
  from write_chunks_completed[OF ok this] files
  have lk: "fmlookup files fpath = Some (File (concat (chunks resp)))" by simp
  then have "st_size files fpath = total (chunks resp)" by (simp add: st_size_def total_def)
  with assms sb g lk show ?thesis by auto
qed

lemma download_try_success:
  assumes "download_try L E w url output_dir filename timeout max_size_mb = (Inr r, fn, w')"
  shows "\<exists>resp fpath. get_result E = Inr resp \<and>
           r = \<lparr>file_path = str_path fpath, file_name = name fpath,
                 file_size = total (chunks resp), content_type = resp_content_type resp,
                 success = True, error = None\<rparr> \<and>
           fmlookup (fs w') fpath = Some (File (concat (chunks resp))) \<and>
           net w' = net w @ [HEAD url, GET url]"
  using assms
  by (auto simp: download_try_def Let_def split: if_splits option.splits prod.splits
           dest!: stream_body_success)

lemma gather_length:
  "length (gather_downloads L Es w urls output_dir timeout max_size_mb) = length urls"
  by (simp add: gather_downloads_def)

lemma gather_nth:
  "i < length urls \<Longrightarrow>
   gather_downloads L Es w urls output_dir timeout max_size_mb ! i =
     fst (download_single_file_internal L (Es i) w (urls ! i) output_dir None timeout
            max_size_mb)"
  by (simp add: gather_downloads_def nth_enumerate_eq)




lemma download_try_eq:
  "download_try L E w url output_dir filename timeout max_size_mb =
     (if \<not> (prefix ''http://'' url \<or> prefix ''https://'' url)
      then (Inl (ValueError invalid_url_msg), filename, w)
      else (case mkdir_error E of
              Some e \<Rightarrow> (Inl e, filename, w)
            | None \<Rightarrow>
                (case probe L E (max_size_mb * 1024 * 1024) max_size_mb of
                   Some e \<Rightarrow>
                     (Inl e, Some (chosen_filename L url filename), probed_world w url output_dir)
                 | None \<Rightarrow>
                     (fst (stream_body L E url (target_path L w url output_dir filename)
                             (name (target_path L w url output_dir filename))
                             (max_size_mb * 1024 * 1024) max_size_mb
                             (probed_world w url output_dir)),
                      Some (chosen_filename L url filename),
                      snd (stream_body L E url (target_path L w url output_dir filename)
                             (name (target_path L w url output_dir filename))
                             (max_size_mb * 1024 * 1024) max_size_mb
                             (probed_world w url output_dir))))))"
  by (simp add: download_try_def Let_def target_path_def chosen_filename_def probed_world_def
        split: option.splits prod.splits)





lemma download_files_results:
  "results (download_files L Es w urls output_dir timeout max_size_mb) =
     gather_downloads L Es w urls
       (case output_dir of None \<Rightarrow> default_download_dir L | Some d \<Rightarrow> d)
       timeout max_size_mb"
  by (simp add: download_files_def Let_def)

lemma single_eq:
  "download_single_file_internal L E w url output_dir filename timeout max_size_mb =
     (case fst (download_try L E w url output_dir filename timeout max_size_mb) of
        Inr r \<Rightarrow> r
      | Inl e \<Rightarrow>
          \<lparr>file_path = [],
           file_name = (case fst (snd (download_try L E w url output_dir filename timeout
                                        max_size_mb)) of None \<Rightarrow> [] | Some f \<Rightarrow> f),
           file_size = 0, content_type = None, success = False, error = Some (str_exn e)\<rparr>,
      snd (snd (download_try L E w url output_dir filename timeout max_size_mb)))"
  by (simp add: download_single_file_internal_def split: prod.splits sum.splits)

lemma stream_body_exceeded:
  assumes "get_result E = Inr resp"
      and "raise_for_status L (status_code resp) url = None"
      and "open_error E = None"
      and "chunks resp = pre @ c # post"
      and "pre = [] \<or> total pre \<le> mb"
      and "total pre + int (length c) > mb"
      and "\<forall>j < length pre. write_error E j = None"
  shows "fst (stream_body L E url fpath final_filename mb mm w) =
           Inl (ValueError (exceeded_during_download_msg L (total pre + int (length c)) mm))"
    and "\<not> path_exists (fs (snd (stream_body L E url fpath final_filename mb mm w))) fpath"
    and "q \<noteq> fpath \<Longrightarrow>
           fmlookup (fs (snd (stream_body L E url fpath final_filename mb mm w))) q =
             fmlookup (fs w) q"
    and "net (snd (stream_body L E url fpath final_filename mb mm w)) = net w @ [GET url]"
proof -
  let ?X = "write_chunks L E resp fpath mb mm (pre @ c # post) 0 0 (open_wb (fs w) fpath)"
  have 1: "pre = [] \<or> 0 + total pre \<le> mb" using assms(5) by simp
  have 2: "0 + total pre + int (length c) > mb" using assms(6) by simp
  have 3: "\<forall>j < length pre. write_error E (0 + j) = None" using assms(7) by simp
  obtain x files' where X0: "?X = (x, files')" by (cases ?X) auto
  from write_chunks_exceeded[OF 1 2 3, of L resp fpath mm post "open_wb (fs w) fpath"] X0
  have x: "x = Some (ValueError (exceeded_during_download_msg L (total pre + int (length c)) mm))"
    and gone: "\<not> path_exists files' fpath"
    by simp_all
  have sb: "stream_body L E url fpath final_filename mb mm w =
          (Inl (ValueError (exceeded_during_download_msg L (total pre + int (length c)) mm)),
           w\<lparr>net := net w @ [GET url], fs := files'\<rparr>)"
    using assms(1-4) X0 x by (simp add: stream_body_def Let_def)
  show "fst (stream_body L E url fpath final_filename mb mm w) =
           Inl (ValueError (exceeded_during_download_msg L (total pre + int (length c)) mm))"
    by (simp add: sb)
  show "\<not> path_exists (fs (snd (stream_body L E url fpath final_filename mb mm w))) fpath"
    using gone by (simp add: sb)
  show "net (snd (stream_body L E url fpath final_filename mb mm w)) = net w @ [GET url]"
    by (simp add: sb)
  show "fmlookup (fs (snd (stream_body L E url fpath final_filename mb mm w))) q =
             fmlookup (fs w) q" if "q \<noteq> fpath"
    using that X0
      write_chunks_other[of q fpath L E resp mb mm "pre @ c # post" 0 0 "open_wb (fs w) fpath"]
    by (simp add: sb open_wb_def)
qed




section \<open>URL validation\<close>

text \<open>
  Claim C8.  For every URL whose scheme is not \<^verbatim>\<open>http\<close> or \<^verbatim>\<open>https\<close>, the download fails
  with the validation error: \<^verbatim>\<open>success\<close> is false, the message is the one about the URL
  format, and the world is returned as it was: no request is added to the log, no
  directory is made and no file is written, whatever the outside would have answered.
\<close>

theorem non_http_url_fails_without_request:
  assumes "url_scheme url \<notin> {''http'', ''https''}"
  shows "download_single_file_internal L E w url output_dir filename timeout max_size_mb =
           (\<lparr>file_path = [], file_name = (case filename of None \<Rightarrow> [] | Some f \<Rightarrow> f),
             file_size = 0, content_type = None, success = False,
             error = Some ''Invalid URL format. URL must start with http:// or https://''\<rparr>, w)"
proof -
  from assms have "\<not> (prefix ''http://'' url \<or> prefix ''https://'' url)"
    using url_scheme_http[of url] by auto
  then show ?thesis by (simp add: single_invalid_url invalid_url_msg_def)
qed

theorem non_http_url_fails_without_request_witness:
  "url_scheme ''ftp://example.com/a.txt'' \<notin> {''http'', ''https''}
   \<and> download_single_file_internal sample_lib (serving [[1, 2, 3]]) empty_world
         ''ftp://example.com/a.txt'' ''/tmp/t'' None 60 500 =
       (\<lparr>file_path = [], file_name = [], file_size = 0, content_type = None, success = False,
         error = Some ''Invalid URL format. URL must start with http:// or https://''\<rparr>,
        empty_world)"
proof -
  have h: "url_scheme ''ftp://example.com/a.txt'' \<notin> {''http'', ''https''}"
    by (simp add: url_scheme_def)
  show ?thesis
    using h non_http_url_fails_without_request
            [OF h, where L = sample_lib and E = "serving [[1, 2, 3]]" and w = empty_world
               and output_dir = "''/tmp/t''" and filename = None and timeout = 60
               and max_size_mb = 500]
    by simp
qed

section \<open>The two outcomes of a download\<close>

lemma single_result_outcome:
  "case download_single_file_internal L E w url output_dir filename timeout max_size_mb of
     (r, w') \<Rightarrow>
       (success r \<and> file_path r \<noteq> [] \<and> error r = None \<and>
        (\<exists>fpath content. file_path r = str_path fpath \<and>
            fmlookup (fs w') fpath = Some (File content) \<and>
            file_size r = int (length content)))
       \<or> (\<not> success r \<and> (\<exists>msg. error r = Some msg) \<and> file_path r = [] \<and> file_size r = 0)"
proof (cases "download_try L E w url output_dir filename timeout max_size_mb")
  case (fields res fn w')
  show ?thesis
  proof (cases res)
    case (Inl e)
    with fields show ?thesis by (simp add: download_single_file_internal_def)
  next
    case (Inr r)
    from fields Inr
    have "download_try L E w url output_dir filename timeout max_size_mb = (Inr r, fn, w')"
      by simp
    from download_try_success[OF this]
    obtain resp fpath where
      g: "get_result E = Inr resp" and
      r: "r = \<lparr>file_path = str_path fpath, file_name = name fpath,
                 file_size = total (chunks resp), content_type = resp_content_type resp,
                 success = True, error = None\<rparr>"
      and lk: "fmlookup (fs w') fpath = Some (File (concat (chunks resp)))"
      and nt: "net w' = net w @ [HEAD url, GET url]"
      by (elim exE conjE)
    from fields Inr have "download_single_file_internal L E w url output_dir filename timeout max_size_mb = (r, w')"
      by (simp add: download_single_file_internal_def)
    with r lk show ?thesis by (auto simp: str_path_ne total_def)
  qed
qed

text \<open>
  Claim C9.  Every result of a download is of exactly one of two kinds.  Either
  \<^verbatim>\<open>success\<close> is true, the file path is not empty, \<^verbatim>\<open>error\<close> is \<^verbatim>\<open>None\<close>, and the path is
  that of a regular file of the file system the download leaves, whose length is
  \<^verbatim>\<open>file_size\<close>.  Or \<^verbatim>\<open>success\<close> is false, \<^verbatim>\<open>error\<close> holds a message, the file path is empty
  and \<^verbatim>\<open>file_size\<close> is 0.  This holds of the result of a single-file download and of every
  result in the response of a batch.
\<close>

theorem download_result_exactly_one_outcome:
  "(case download_single_file_internal L E w url output_dir filename timeout max_size_mb of
      (r, w') \<Rightarrow>
        (success r \<and> file_path r \<noteq> [] \<and> error r = None \<and>
         (\<exists>fpath content. file_path r = str_path fpath \<and>
             fmlookup (fs w') fpath = Some (File content) \<and>
             file_size r = int (length content)))
        \<or> (\<not> success r \<and> (\<exists>msg. error r = Some msg) \<and> file_path r = [] \<and> file_size r = 0))
   \<and> list_all
         (\<lambda>r. (success r \<and> file_path r \<noteq> [] \<and> error r = None \<and> 0 \<le> file_size r)
              \<or> (\<not> success r \<and> (\<exists>msg. error r = Some msg) \<and> file_path r = []
                  \<and> file_size r = 0))
         (results (download_files L Es w urls dir timeout max_size_mb))"
proof
  show "case download_single_file_internal L E w url output_dir filename timeout max_size_mb of
      (r, w') \<Rightarrow>
        (success r \<and> file_path r \<noteq> [] \<and> error r = None \<and>
         (\<exists>fpath content. file_path r = str_path fpath \<and>
             fmlookup (fs w') fpath = Some (File content) \<and>
             file_size r = int (length content)))
        \<or> (\<not> success r \<and> (\<exists>msg. error r = Some msg) \<and> file_path r = [] \<and> file_size r = 0)"
    by (rule single_result_outcome)
  have one: "(success r \<and> file_path r \<noteq> [] \<and> error r = None \<and> 0 \<le> file_size r)
              \<or> (\<not> success r \<and> (\<exists>msg. error r = Some msg) \<and> file_path r = []
                  \<and> file_size r = 0)"
    if "r = fst (download_single_file_internal L E' w url' d None timeout max_size_mb)"
    for r E' url' d
    using that
      single_result_outcome[of L E' w url' d None timeout max_size_mb]
    by (cases "download_single_file_internal L E' w url' d None timeout max_size_mb") auto
  show "list_all
         (\<lambda>r. (success r \<and> file_path r \<noteq> [] \<and> error r = None \<and> 0 \<le> file_size r)
              \<or> (\<not> success r \<and> (\<exists>msg. error r = Some msg) \<and> file_path r = []
                  \<and> file_size r = 0))
         (results (download_files L Es w urls dir timeout max_size_mb))"
    unfolding list_all_iff download_files_results gather_downloads_def
  proof
    fix r
    assume "r \<in> set (map (\<lambda>(i, url).
                 fst (download_single_file_internal L (Es i) w url
                        (case dir of None \<Rightarrow> default_download_dir L | Some d \<Rightarrow> d)
                        None timeout max_size_mb))
               (enumerate 0 urls))"
    then obtain i url' where
      "r = fst (download_single_file_internal L (Es i) w url'
                  (case dir of None \<Rightarrow> default_download_dir L | Some d \<Rightarrow> d)
                  None timeout max_size_mb)"
      by auto
    then show "(success r \<and> file_path r \<noteq> [] \<and> error r = None \<and> 0 \<le> file_size r)
              \<or> (\<not> success r \<and> (\<exists>msg. error r = Some msg) \<and> file_path r = []
                  \<and> file_size r = 0)"
      by (rule one)
  qed
qed

section \<open>The batch\<close>

text \<open>
  Claim C1.  For every list of URLs, the response of \<^verbatim>\<open>download_files\<close> has one result per
  URL; result \<open>i\<close> is what the single-file download returns for URL \<open>i\<close> (with the answers
  given to task \<open>i\<close>, no filename supplied); \<^verbatim>\<open>success_count\<close> is the number of results
  whose \<^verbatim>\<open>success\<close> is true, and \<^verbatim>\<open>success_count + failed_count\<close> is the number of URLs.
  For the empty list the response is the empty list with both counts 0.
\<close>

theorem download_files_counts_and_order:
  "length (results (download_files L Es w urls output_dir timeout max_size_mb)) = length urls
   \<and> (\<forall>i < length urls.
         results (download_files L Es w urls output_dir timeout max_size_mb) ! i =
           fst (download_single_file_internal L (Es i) w (urls ! i)
                  (case output_dir of None \<Rightarrow> default_download_dir L | Some d \<Rightarrow> d)
                  None timeout max_size_mb))
   \<and> success_count (download_files L Es w urls output_dir timeout max_size_mb) =
       int (length (filter success
                      (results (download_files L Es w urls output_dir timeout max_size_mb))))
   \<and> success_count (download_files L Es w urls output_dir timeout max_size_mb)
       + failed_count (download_files L Es w urls output_dir timeout max_size_mb)
       = int (length urls)
   \<and> download_files L Es w [] output_dir timeout max_size_mb =
         \<lparr>results = [], success_count = 0, failed_count = 0\<rparr>"
proof (intro conjI allI impI)
  show "length (results (download_files L Es w urls output_dir timeout max_size_mb)) = length urls"
    by (simp add: download_files_results gather_length)
  show "success_count (download_files L Es w urls output_dir timeout max_size_mb) =
       int (length (filter success
                      (results (download_files L Es w urls output_dir timeout max_size_mb))))"
    by (simp add: download_files_def Let_def)
  show "success_count (download_files L Es w urls output_dir timeout max_size_mb)
       + failed_count (download_files L Es w urls output_dir timeout max_size_mb)
       = int (length urls)"
    by (simp add: download_files_def Let_def gather_length)
  show "download_files L Es w [] output_dir timeout max_size_mb =
         \<lparr>results = [], success_count = 0, failed_count = 0\<rparr>"
    by (simp add: download_files_def Let_def gather_downloads_def)
next
  fix i assume "i < length urls"
  then show "results (download_files L Es w urls output_dir timeout max_size_mb) ! i =
           fst (download_single_file_internal L (Es i) w (urls ! i)
                  (case output_dir of None \<Rightarrow> default_download_dir L | Some d \<Rightarrow> d)
                  None timeout max_size_mb)"
    by (simp add: download_files_results gather_nth)
qed

theorem download_files_counts_and_order_witness:
  "length (results (download_files sample_lib (\<lambda>i. serving [[1, 2, 3]]) empty_world
           [''https://example.com/data.json'', ''ftp://example.com/x''] (Some ''/tmp/t'') 60 500))
     = 2
   \<and> download_files sample_lib (\<lambda>i. serving [[1, 2, 3]]) empty_world
           [''https://example.com/data.json'', ''ftp://example.com/x''] (Some ''/tmp/t'') 60 500 =
      \<lparr>results =
         [\<lparr>file_path = ''/tmp/t/data.json'', file_name = ''data.json'', file_size = 3,
           content_type = Some ''application/json'', success = True, error = None\<rparr>,
          \<lparr>file_path = [], file_name = [], file_size = 0, content_type = None, success = False,
           error = Some ''Invalid URL format. URL must start with http:// or https://''\<rparr>],
       success_count = 1, failed_count = 1\<rparr>"
proof -
  have ev: "download_files sample_lib (\<lambda>i. serving [[1, 2, 3]]) empty_world
           [''https://example.com/data.json'', ''ftp://example.com/x''] (Some ''/tmp/t'') 60 500 =
      \<lparr>results =
         [\<lparr>file_path = ''/tmp/t/data.json'', file_name = ''data.json'', file_size = 3,
           content_type = Some ''application/json'', success = True, error = None\<rparr>,
          \<lparr>file_path = [], file_name = [], file_size = 0, content_type = None, success = False,
           error = Some ''Invalid URL format. URL must start with http:// or https://''\<rparr>],
       success_count = 1, failed_count = 1\<rparr>"
    by code_simp
  from download_files_counts_and_order
         [where L = sample_lib and Es = "\<lambda>i. serving [[1, 2, 3]]" and w = empty_world
            and urls = "[''https://example.com/data.json'', ''ftp://example.com/x'']"
            and output_dir = "Some ''/tmp/t''" and timeout = 60 and max_size_mb = 500]
  have len: "length (results (download_files sample_lib (\<lambda>i. serving [[1, 2, 3]]) empty_world
           [''https://example.com/data.json'', ''ftp://example.com/x''] (Some ''/tmp/t'') 60 500))
     = 2"
    by simp
  show ?thesis by (intro conjI) (rule len, rule ev)
qed

section \<open>Failures are results\<close>




section \<open>The size cap during streaming\<close>

text \<open>
  Claim C3, as stated: when the running byte total exceeds the maximum mid-stream, the
  partial file is deleted, the result has \<^verbatim>\<open>success\<close> false, and the message includes the
  number of bytes transferred so far.

  The message gives the running total in MB, \<^verbatim>\<open>downloaded / (1024 * 1024)\<close> printed with two
  decimals, not the number of bytes: with a cap of 0 MB a first chunk of 3 bytes and a
  first chunk of 4 bytes give the same message, \<^verbatim>\<open>0.00 MB > 0 MB\<close>, and with a cap of 1 MB
  a total of 1048577 bytes is reported as \<^verbatim>\<open>1.00 MB > 1 MB\<close>.
\<close>

theorem size_message_not_in_bytes_counterexample:
  "error (fst (download_single_file_internal sample_lib (serving [[1, 2, 3]]) empty_world
                 ''https://example.com/data.json'' ''/tmp/t'' None 60 0)) =
     Some ''File exceeded size limit during download (0.00 MB > 0 MB)''
   \<and> error (fst (download_single_file_internal sample_lib (serving [[1, 2, 3, 4]]) empty_world
                 ''https://example.com/data.json'' ''/tmp/t'' None 60 0)) =
     Some ''File exceeded size limit during download (0.00 MB > 0 MB)''
   \<and> exceeded_during_download_msg sample_lib 1048577 1 =
       ''File exceeded size limit during download (1.00 MB > 1 MB)''"
  by code_simp

text \<open>
  Claim C3, amended.  Take a download that reaches the streaming loop (valid URL, the
  directory made, the probe passed, \<^verbatim>\<open>raise_for_status\<close> returned, the file opened) and
  whose chunks are \<open>pre @ c # post\<close>, where the total stays within the cap over \<open>pre\<close>,
  every chunk of \<open>pre\<close> is written, and the total exceeds the cap with \<open>c\<close>.  Then \<^verbatim>\<open>success\<close> is false, the path
  is empty and the size 0; no file is left at the target path, and every other path of
  the file system is as the \<^verbatim>\<open>mkdir\<close> left it; the message is the size-exceeded one, built
  from the running total including \<open>c\<close>, in MB with two decimals, and from the cap.
\<close>

theorem size_exceeded_midstream_aborts:
  assumes "prefix ''http://'' url \<or> prefix ''https://'' url"
      and "mkdir_error E = None"
      and "probe L E (max_size_mb * 1024 * 1024) max_size_mb = None"
      and "get_result E = Inr resp"
      and "raise_for_status L (status_code resp) url = None"
      and "open_error E = None"
      and "chunks resp = pre @ c # post"
      and "pre = [] \<or> total pre \<le> max_size_mb * 1024 * 1024"
      and "total pre + int (length c) > max_size_mb * 1024 * 1024"
      and "\<forall>j < length pre. write_error E j = None"
  shows "case download_single_file_internal L E w url output_dir filename timeout max_size_mb of
           (r, w') \<Rightarrow>
             \<not> success r
             \<and> error r = Some (''File exceeded size limit during download (''
                                @ format_mb L (total pre + int (length c)) @ '' MB > ''
                                @ str_int max_size_mb @ '' MB)'')
             \<and> file_path r = [] \<and> file_size r = 0
             \<and> \<not> path_exists (fs w') (target_path L w url output_dir filename)
             \<and> (\<forall>q. q \<noteq> target_path L w url output_dir filename \<longrightarrow>
                    fmlookup (fs w') q = fmlookup (mkdir_parents (fs w) (Path output_dir)) q)"
proof -
  let ?mb = "max_size_mb * 1024 * 1024"
  let ?t = "target_path L w url output_dir filename"
  let ?sb = "stream_body L E url ?t (name ?t) ?mb max_size_mb (probed_world w url output_dir)"
  note sb = stream_body_exceeded[OF assms(4-10), where fpath = ?t
                 and final_filename = "name ?t" and mm = max_size_mb
                 and w = "probed_world w url output_dir"]
  have t: "download_try L E w url output_dir filename timeout max_size_mb =
             (fst ?sb, Some (chosen_filename L url filename), snd ?sb)"
    using assms(1-3) by (simp add: download_try_eq)
  show ?thesis
    using sb by (simp add: single_eq t exceeded_during_download_msg_def probed_world_def)
qed

theorem size_exceeded_midstream_aborts_witness:
  "case download_single_file_internal sample_lib (serving [[], [1, 2, 3], [4, 5]]) empty_world
          ''https://example.com/data.json'' ''/tmp/t'' None 60 0 of
     (r, w') \<Rightarrow>
       \<not> success r
       \<and> error r = Some ''File exceeded size limit during download (0.00 MB > 0 MB)''
       \<and> \<not> path_exists (fs w') (Path ''/tmp/t/data.json'')"
proof -
  let ?E = "serving [[], [1, 2, 3], [4, 5]]"
  let ?url = "''https://example.com/data.json''"
  have h1: "prefix ''http://'' ?url \<or> prefix ''https://'' ?url" by simp
  have h2: "mkdir_error ?E = None" by (simp add: serving_def)
  have h3: "probe sample_lib ?E (0 * 1024 * 1024) 0 = None" by (simp add: serving_def probe_def)
  have h4: "get_result ?E = Inr \<lparr>status_code = 200, resp_content_type = Some ''application/json'',
                        chunks = [[], [1, 2, 3], [4, 5]], stream_error = None\<rparr>"
    by (simp add: serving_def)
  have h5: "raise_for_status sample_lib
              (status_code \<lparr>status_code = 200, resp_content_type = Some ''application/json'',
                        chunks = [[], [1, 2, 3], [4, 5]], stream_error = None\<rparr>) ?url = None"
    by (simp add: sample_lib_def)
  have h6: "open_error ?E = None" by (simp add: serving_def)
  have h7: "chunks \<lparr>status_code = 200, resp_content_type = Some ''application/json'',
                        chunks = [[], [1, 2, 3], [4, 5]], stream_error = None\<rparr>
             = [[]] @ [1, 2, 3] # [[4, 5]]" by simp
  have h8: "[[]] = [] \<or> total [[]] \<le> 0 * 1024 * 1024" by simp
  have h9: "total [[]] + int (length [1::nat, 2, 3]) > 0 * 1024 * 1024" by simp
  have h10: "\<forall>j < length [[]::bytes]. write_error ?E j = None" by (simp add: serving_def)
  have tp: "target_path sample_lib empty_world ?url ''/tmp/t'' None = Path ''/tmp/t/data.json''"
    by code_simp
  have fm: "format_mb sample_lib 3 = ''0.00''" by code_simp
  have si: "str_int 0 = ''0''" by code_simp
  from size_exceeded_midstream_aborts[OF h1 h2 h3 h4 h5 h6 h7 h8 h9 h10, where w = empty_world
            and output_dir = "''/tmp/t''" and filename = None and timeout = 60]
  show ?thesis by (simp add: tp fm si split: prod.splits)
qed

section \<open>The pre-flight probe\<close>




section \<open>Collision-free paths\<close>

lemma stem_suffix: "stem_of nm @ suffix_of nm = nm"
  by (simp add: stem_of_def suffix_of_def Let_def)

lemma set_stem_of: "set (stem_of nm) \<subseteq> set nm"
  by (auto simp: stem_of_def Let_def dest: in_set_takeD)

lemma set_suffix_of: "set (suffix_of nm) \<subseteq> set nm"
  by (auto simp: suffix_of_def Let_def dest: in_set_dropD)







lemma split_sep_piece_no_sep: "x \<in> set (split_sep s) \<Longrightarrow> CHR ''/'' \<notin> set x"
proof (induction s arbitrary: x)
  case Nil
  then show ?case by simp
next
  case (Cons c s)
  obtain y ys where y: "split_sep s = y # ys" using split_sep_ne[of s] by (cases "split_sep s") auto
  from Cons.IH have ih: "\<And>z. z \<in> set (y # ys) \<Longrightarrow> CHR ''/'' \<notin> set z" by (simp add: y)
  show ?case
  proof (cases "c = CHR ''/''")
    case True
    with Cons.prems y ih show ?thesis by auto
  next
    case False
    with Cons.prems y have "x = c # y \<or> x \<in> set ys" by auto
    then show ?thesis using False ih by auto
  qed
qed

lemma wf_path_Path: "wf_path (Path s)"
  by (auto simp: wf_path_def Path_def list_all_iff dest: split_sep_piece_no_sep)

lemma wf_path_joinpath: "wf_path p \<Longrightarrow> wf_path (joinpath p key)"
  using wf_path_Path[of key] by (auto simp: joinpath_def wf_path_def)



section \<open>Deriving a filename from a URL\<close>

text \<open>
  Claim C7.  With no filename supplied, the name derived from a URL is the one the
  specification describes (\<^const>\<open>derived_name_spec\<close>), for every URL and whatever the
  library functions return or raise: the last part of the URL path, percent-decoded;
  else the query parameters \<^verbatim>\<open>file\<close>, \<^verbatim>\<open>filename\<close>, \<^verbatim>\<open>name\<close> in this order; else the
  placeholder; \<^verbatim>\<open>.bin\<close> appended when the name has no dot; and \<^verbatim>\<open>downloaded_file.bin\<close> when
  anything raises.  The function is total: it never raises.
\<close>

theorem extract_filename_follows_specification: "extract_filename_from_url L url = derived_name_spec L url"
proof (cases "urlparse L url")
  case (Inl e)
  then show ?thesis
    by (simp add: extract_filename_from_url_def extract_filename_try_def derived_name_spec_def)
next
  case (Inr parsed)
  show ?thesis
  proof (cases "unquote L (name (Path (url_path parsed))) = []")
    case False
    with Inr show ?thesis
      by (simp add: extract_filename_from_url_def extract_filename_try_def derived_name_spec_def
            with_default_extension_def Let_def)
  next
    case True
    show ?thesis
    proof (cases "parse_qs L (url_query parsed)")
      case (Inl e)
      with Inr True show ?thesis
        by (simp add: extract_filename_from_url_def extract_filename_try_def derived_name_spec_def)
    next
      case qp: (Inr params)
      have q: "(case query_filename params [''file'', ''filename'', ''name''] [] of
                  Inl e \<Rightarrow> ''downloaded_file.bin''
                | Inr filename \<Rightarrow>
                    sanitize_filename
                      (with_default_extension (if filename = [] then ''downloaded_file'' else filename)))
               = (case find (\<lambda>key. params key \<noteq> None) [''file'', ''filename'', ''name''] of
                           None \<Rightarrow> sanitize_filename (with_default_extension ''downloaded_file'')
                         | Some key \<Rightarrow>
                             (case params key of
                                Some (v # vs) \<Rightarrow>
                                  sanitize_filename
                                    (with_default_extension
                                       (if v = [] then ''downloaded_file'' else v))
                              | _ \<Rightarrow> ''downloaded_file.bin''))"
        by (auto split: option.splits list.splits)
      have "extract_filename_from_url L url =
              (case query_filename params [''file'', ''filename'', ''name''] [] of
                  Inl e \<Rightarrow> ''downloaded_file.bin''
                | Inr filename \<Rightarrow>
                    sanitize_filename
                      (with_default_extension (if filename = [] then ''downloaded_file'' else filename)))"
        using Inr True qp
        by (simp add: extract_filename_from_url_def extract_filename_try_def Let_def
              with_default_extension_def split: sum.splits)
      also note q
      finally show ?thesis using Inr True qp by (simp add: derived_name_spec_def)
    qed
  qed
qed

theorem extract_filename_follows_specification_witness:
  "extract_filename_from_url sample_lib ''https://example.com/files/report.pdf'' = ''report.pdf''
   \<and> extract_filename_from_url sample_lib ''https://example.com/download'' = ''download.bin''
   \<and> extract_filename_from_url sample_lib ''https://example.com/?filename=a.txt'' = ''a.txt''
   \<and> extract_filename_from_url sample_lib ''https://example.com/?name=notes'' = ''notes.bin''
   \<and> extract_filename_from_url sample_lib ''https://example.com/'' = ''downloaded_file.bin''
   \<and> extract_filename_from_url (sample_lib\<lparr>urlparse := (\<lambda>u. Inl (ValueError ''Invalid IPv6 URL''))\<rparr>)
         ''http://[x/a.txt'' = ''downloaded_file.bin''"
proof -
  have "derived_name_spec sample_lib ''https://example.com/files/report.pdf'' = ''report.pdf''"
       "derived_name_spec sample_lib ''https://example.com/download'' = ''download.bin''"
       "derived_name_spec sample_lib ''https://example.com/?filename=a.txt'' = ''a.txt''"
       "derived_name_spec sample_lib ''https://example.com/?name=notes'' = ''notes.bin''"
       "derived_name_spec sample_lib ''https://example.com/'' = ''downloaded_file.bin''"
       "derived_name_spec (sample_lib\<lparr>urlparse := (\<lambda>u. Inl (ValueError ''Invalid IPv6 URL''))\<rparr>)
         ''http://[x/a.txt'' = ''downloaded_file.bin''"
    by code_simp+
  then show ?thesis by (simp only: extract_filename_follows_specification) 
qed

section \<open>Further properties of the sanitizer\<close>

lemma re_sub_legal: "\<forall>c \<in> set (re_sub_illegal s). \<not> illegal_char c"
  by (auto simp: re_sub_illegal_def illegal_char_def)

lemma re_sub_legal_id: "\<forall>c \<in> set s. \<not> illegal_char c \<Longrightarrow> re_sub_illegal s = s"
  by (induction s) (auto simp: re_sub_illegal_def)

lemma set_strip_chars: "set (strip_chars cs s) \<subseteq> set s"
proof -
  have "set (strip_chars cs s) \<subseteq> set (dropWhile (\<lambda>c. c \<in> set cs) s)"
    unfolding strip_chars_def using set_dropWhileD by fastforce
  also have "\<dots> \<subseteq> set s" using set_dropWhileD by fastforce
  finally show ?thesis .
qed

lemma strip_chars_ends:
  assumes "strip_chars cs s \<noteq> []"
  shows "hd (strip_chars cs s) \<notin> set cs" and "last (strip_chars cs s) \<notin> set cs"
proof -
  let ?a = "dropWhile (\<lambda>c. c \<in> set cs) s"
  let ?b = "dropWhile (\<lambda>c. c \<in> set cs) (rev ?a)"
  from assms have b: "?b \<noteq> []" by (simp add: strip_chars_def)
  then have hb: "hd ?b \<notin> set cs" using hd_dropWhile[of "\<lambda>c. c \<in> set cs" "rev ?a"] by simp
  then show "last (strip_chars cs s) \<notin> set cs"
    using b by (simp add: strip_chars_def last_rev)
  have a: "?a \<noteq> []"
  proof
    assume e: "?a = []"
    have "?b = dropWhile (\<lambda>c. c \<in> set cs) (rev [])" by (simp only: e)
    with b show False by (simp del: dropWhile_eq_Nil_conv)
  qed
  then have ha: "hd ?a \<notin> set cs" using hd_dropWhile[of "\<lambda>c. c \<in> set cs" s] by simp
  have "rev ?a = takeWhile (\<lambda>c. c \<in> set cs) (rev ?a) @ ?b" by simp
  then have "?a = rev ?b @ rev (takeWhile (\<lambda>c. c \<in> set cs) (rev ?a))"
    by (metis rev_append rev_rev_ident)
  then have "hd ?a = hd (rev ?b)" using b by (metis hd_append2 rev_is_Nil_conv)
  with ha show "hd (strip_chars cs s) \<notin> set cs" by (simp add: strip_chars_def)
qed

lemma strip_chars_id:
  assumes "s \<noteq> []" "hd s \<notin> set cs" "last s \<notin> set cs"
  shows "strip_chars cs s = s"
proof -
  from assms(1,2) have 1: "dropWhile (\<lambda>c. c \<in> set cs) s = s" by (cases s) auto
  from assms(1,3) have "hd (rev s) \<notin> set cs" by (simp add: hd_rev)
  with assms(1) have 2: "dropWhile (\<lambda>c. c \<in> set cs) (rev s) = rev s" by (cases "rev s") auto
  show ?thesis by (simp add: strip_chars_def 1 2)
qed

lemma cleaned_props:
  "cleaned s \<noteq> []"
  "\<forall>c \<in> set (cleaned s). \<not> illegal_char c"
  "hd (cleaned s) \<notin> set ''. ''"
  "last (cleaned s) \<notin> set ''. ''"
proof -
  let ?c = "strip_chars ''. '' (re_sub_illegal s)"
  show "cleaned s \<noteq> []" by (simp add: cleaned_def Let_def)
  have "\<forall>c \<in> set ''downloaded_file''. \<not> illegal_char c" by (simp add: illegal_char_def)
  moreover have "\<forall>c \<in> set ?c. \<not> illegal_char c"
    using re_sub_legal[of s] set_strip_chars[of "''. ''" "re_sub_illegal s"] by blast
  ultimately show "\<forall>c \<in> set (cleaned s). \<not> illegal_char c"
    by (simp add: cleaned_def Let_def)
  show "hd (cleaned s) \<notin> set ''. ''"
    using strip_chars_ends(1)[of "''. ''" "re_sub_illegal s"] by (auto simp: cleaned_def Let_def)
  show "last (cleaned s) \<notin> set ''. ''"
    using strip_chars_ends(2)[of "''. ''" "re_sub_illegal s"] by (auto simp: cleaned_def Let_def)
qed

lemma Path_plain:
  assumes "CHR ''/'' \<notin> set key" and "key \<noteq> []" and "key \<noteq> ''.''"
  shows "Path key = MkPath [] [key]"
proof -
  from assms(2) obtain c cs where key: "key = c # cs" by (cases key) auto
  with assms(1) have "c \<noteq> CHR ''/''" by auto
  then have sr: "splitroot key = ([], key)" by (simp add: splitroot_def key)
  show ?thesis using assms by (simp add: Path_def sr split_sep_no_sep)
qed

lemma name_Path_cleaned: "name (Path (cleaned s)) = cleaned s"
proof -
  have "CHR ''/'' \<notin> set (cleaned s)"
    using cleaned_props(2)[of s] by (auto simp: illegal_char_def)
  moreover have "cleaned s \<noteq> ''.''" using cleaned_props(3)[of s] by auto
  ultimately show ?thesis using cleaned_props(1)[of s] by (simp add: Path_plain name_def)
qed

lemma sanitize_filename_eq:
  "sanitize_filename s =
     (if length (cleaned s) > 255
      then slice_to (255 - int (length (suffix_of (cleaned s)))) (stem_of (cleaned s))
             @ suffix_of (cleaned s)
      else cleaned s)"
  by (simp add: sanitize_filename_def cleaned_def Let_def stem_def suffix_def
        name_Path_cleaned[unfolded cleaned_def Let_def])

lemma set_slice_to: "set (slice_to n s) \<subseteq> set s"
  by (auto simp: slice_to_def dest: in_set_takeD)

lemma sanitize_filename_legal:
  "sanitize_filename s \<noteq> [] \<and> (\<forall>c \<in> set (sanitize_filename s). \<not> illegal_char c)"
proof (cases "length (cleaned s) > 255")
  case False
  then show ?thesis using cleaned_props(1,2)[of s] by (simp add: sanitize_filename_eq)
next
  case True
  let ?c = "cleaned s"
  have sub: "set (sanitize_filename s) \<subseteq> set ?c"
    using True set_slice_to[of _ "stem_of ?c"] set_stem_of[of ?c] set_suffix_of[of ?c]
    by (auto simp: sanitize_filename_eq)
  have len: "length (stem_of ?c) + length (suffix_of ?c) = length ?c"
    using stem_suffix[of ?c] by (metis length_append)
  have "sanitize_filename s \<noteq> []"
  proof (cases "suffix_of ?c = []")
    case False
    with True show ?thesis by (simp add: sanitize_filename_eq)
  next
    case e: True
    with len True have "length (stem_of ?c) > 255" by simp
    with True e show ?thesis by (auto simp: sanitize_filename_eq slice_to_def)
  qed
  with sub cleaned_props(2)[of s] show ?thesis by blast
qed

text \<open>
  Whatever the input, the sanitized name is not empty and holds none of the characters of
  the class \<^verbatim>\<open>[<>:"/\\|?*\x00-\x1f]\<close>.
\<close>

theorem sanitized_name_has_no_illegal_character:
  "sanitize_filename s \<noteq> [] \<and> list_all (\<lambda>c. \<not> illegal_char c) (sanitize_filename s)"
  using sanitize_filename_legal[of s] by (simp add: list_all_iff)

theorem sanitized_name_has_no_illegal_character_witness:
  "sanitize_filename ''a/b:c*d'' = ''a_b_c_d''
   \<and> list_all (\<lambda>c. \<not> illegal_char c) (sanitize_filename ''a/b:c*d'')"
proof -
  have ev: "sanitize_filename ''a/b:c*d'' = ''a_b_c_d''" by code_simp
  from sanitized_name_has_no_illegal_character[of "''a/b:c*d''"] ev show ?thesis by simp
qed

text \<open>
  When the name is at most 255 characters long after the replacement and the strip, the
  result is that name (the placeholder if it is empty): it has at most 255 characters, no
  leading or trailing dot or space, and sanitizing it again changes nothing.
\<close>

theorem sanitize_filename_short_names:
  assumes "length (strip_chars ''. '' (re_sub_illegal s)) \<le> 255"
  shows "sanitize_filename s =
           (if strip_chars ''. '' (re_sub_illegal s) = [] then ''downloaded_file''
            else strip_chars ''. '' (re_sub_illegal s))
         \<and> length (sanitize_filename s) \<le> 255
         \<and> hd (sanitize_filename s) \<notin> {CHR ''.'', CHR '' ''}
         \<and> last (sanitize_filename s) \<notin> {CHR ''.'', CHR '' ''}
         \<and> sanitize_filename (sanitize_filename s) = sanitize_filename s"
proof -
  let ?r = "sanitize_filename s"
  from assms have len: "length (cleaned s) \<le> 255" by (simp add: cleaned_def Let_def)
  then have r: "?r = cleaned s" by (simp add: sanitize_filename_eq)
  have ne: "?r \<noteq> []" and legal: "\<forall>c \<in> set ?r. \<not> illegal_char c"
    and h: "hd ?r \<notin> set ''. ''" and l: "last ?r \<notin> set ''. ''"
    using cleaned_props[of s] by (simp_all add: r)
  have "strip_chars ''. '' (re_sub_illegal ?r) = ?r"
    using re_sub_legal_id[OF legal] strip_chars_id[OF ne h l] by simp
  then have "cleaned ?r = ?r" using ne by (simp add: cleaned_def Let_def)
  then have idem: "sanitize_filename ?r = ?r" using len r by (simp add: sanitize_filename_eq)
  show ?thesis using r len h l idem by (simp add: cleaned_def Let_def)
qed

theorem sanitize_filename_short_names_witness:
  "length (strip_chars ''. '' (re_sub_illegal ''  ..report?.pdf.. '')) \<le> 255
   \<and> sanitize_filename ''  ..report?.pdf.. '' = ''report_.pdf''
   \<and> sanitize_filename (sanitize_filename ''  ..report?.pdf.. '')
       = sanitize_filename ''  ..report?.pdf.. ''"
proof -
  have h: "length (strip_chars ''. '' (re_sub_illegal ''  ..report?.pdf.. '')) \<le> 255"
    by code_simp
  have ev: "sanitize_filename ''  ..report?.pdf.. '' = ''report_.pdf''" by code_simp
  from sanitize_filename_short_names[OF h]
  have idem: "sanitize_filename (sanitize_filename ''  ..report?.pdf.. '')
                = sanitize_filename ''  ..report?.pdf.. ''"
    by blast
  show ?thesis by (intro conjI) (rule h, rule ev, rule idem)
qed

text \<open>
  When the name is longer and its extension has at most 255 characters, the result has
  exactly 255 characters: the stem cut to the room the extension leaves, and the
  extension.
\<close>

theorem sanitize_filename_truncates_stem:
  assumes "length (strip_chars ''. '' (re_sub_illegal s)) > 255"
      and "length (suffix_of (strip_chars ''. '' (re_sub_illegal s))) \<le> 255"
  shows "length (sanitize_filename s) = 255
         \<and> sanitize_filename s =
             take (255 - length (suffix_of (strip_chars ''. '' (re_sub_illegal s))))
                  (stem_of (strip_chars ''. '' (re_sub_illegal s)))
               @ suffix_of (strip_chars ''. '' (re_sub_illegal s))"
proof -
  let ?c = "strip_chars ''. '' (re_sub_illegal s)"
  from assms(1) have c: "cleaned s = ?c" by (auto simp: cleaned_def Let_def)
  have len: "length (stem_of ?c) + length (suffix_of ?c) = length ?c"
    using stem_suffix[of ?c] by (metis length_append)
  have "sanitize_filename s = take (255 - length (suffix_of ?c)) (stem_of ?c) @ suffix_of ?c"
    using assms by (simp add: sanitize_filename_eq c slice_to_def nat_diff_distrib')
  moreover have "length (take (255 - length (suffix_of ?c)) (stem_of ?c) @ suffix_of ?c) = 255"
    using assms len by simp
  ultimately show ?thesis by simp
qed

theorem sanitize_filename_truncates_stem_witness:
  "length (strip_chars ''. '' (re_sub_illegal (replicate 300 (CHR ''a'') @ ''.txt''))) > 255
   \<and> length (suffix_of (strip_chars ''. '' (re_sub_illegal (replicate 300 (CHR ''a'') @ ''.txt''))))
       \<le> 255
   \<and> length (sanitize_filename (replicate 300 (CHR ''a'') @ ''.txt'')) = 255"
proof -
  have h1: "length (strip_chars ''. '' (re_sub_illegal (replicate 300 (CHR ''a'') @ ''.txt''))) > 255"
    by code_simp
  have h2: "length (suffix_of (strip_chars ''. '' (re_sub_illegal (replicate 300 (CHR ''a'') @ ''.txt''))))
              \<le> 255"
    by code_simp
  from sanitize_filename_truncates_stem[OF h1 h2]
  have len: "length (sanitize_filename (replicate 300 (CHR ''a'') @ ''.txt'')) = 255"
    by blast
  show ?thesis by (intro conjI) (rule h1, rule h2, rule len)
qed

section \<open>A download within the cap\<close>

lemma write_chunks_within_cap:
  assumes "cs = [] \<or> d + total cs \<le> mb"
      and "\<forall>j < length cs. write_error E (i + j) = None"
  shows "fst (write_chunks L E resp fpath mb mm cs i d files) = stream_error resp"
  using assms
proof (induction cs arbitrary: i d files)
  case Nil
  then show ?case by simp
next
  case (Cons c cs)
  from Cons.prems(1) have le: "d + int (length c) + total cs \<le> mb" by simp
  have "0 \<le> total cs" by (simp add: total_def)
  with le have ok: "\<not> d + int (length c) > mb" by linarith
  from Cons.prems(2) have we: "write_error E i = None" by force
  from Cons.prems(2) have rest: "\<forall>j < length cs. write_error E (Suc i + j) = None" by force
  have 1: "cs = [] \<or> (d + int (length c)) + total cs \<le> mb" using le by simp
  from Cons.IH[OF 1 rest, of "write_bytes files fpath c"] ok we
  show ?case by (simp add: Let_def)
qed

lemma sanitize_filename_plain:
  "CHR ''/'' \<notin> set (sanitize_filename s) \<and> sanitize_filename s \<noteq> [] \<and> sanitize_filename s \<noteq> ''.''"
proof -
  have legal: "sanitize_filename s \<noteq> [] \<and> (\<forall>c \<in> set (sanitize_filename s). \<not> illegal_char c)"
    by (rule sanitize_filename_legal)
  then have ns: "CHR ''/'' \<notin> set (sanitize_filename s)" by (auto simp: illegal_char_def)
  have nd: "sanitize_filename s \<noteq> ''.''"
  proof (cases "length (cleaned s) > 255")
    case False
    then show ?thesis using cleaned_props(3)[of s] by (auto simp: sanitize_filename_eq)
  next
    case True
    let ?c = "cleaned s"
    show ?thesis
    proof (cases "suffix_of ?c = []")
      case e: True
      from stem_suffix[of ?c] e have "stem_of ?c = ?c" by simp
      with True e have "sanitize_filename s = take 255 ?c"
        by (simp add: sanitize_filename_eq slice_to_def)
      moreover have "hd (take 255 ?c) = hd ?c" using cleaned_props(1)[of s] by (cases ?c) auto
      ultimately have "hd (sanitize_filename s) = hd ?c" by simp
      with cleaned_props(3)[of s] have "hd (sanitize_filename s) \<noteq> CHR ''.''" by simp
      then show ?thesis by auto
    next
      case False
      then have "length (suffix_of ?c) \<ge> 2"
        by (auto simp: suffix_of_def Let_def split: if_splits)
      then have "length (sanitize_filename s) \<ge> 2" using True by (simp add: sanitize_filename_eq)
      then show ?thesis by auto
    qed
  qed
  from ns legal nd show ?thesis by simp
qed

lemma extract_filename_plain:
  "CHR ''/'' \<notin> set (extract_filename_from_url L url) \<and> extract_filename_from_url L url \<noteq> []
   \<and> extract_filename_from_url L url \<noteq> ''.''"
proof (cases "extract_filename_try L url")
  case (Inl e)
  then show ?thesis by (simp add: extract_filename_from_url_def)
next
  case (Inr f)
  then obtain g where "f = sanitize_filename g"
    by (auto simp: extract_filename_try_def Let_def split: sum.splits if_splits)
  with Inr show ?thesis using sanitize_filename_plain[of g]
    by (simp add: extract_filename_from_url_def)
qed

lemma chosen_filename_plain:
  "CHR ''/'' \<notin> set (chosen_filename L url filename) \<and> chosen_filename L url filename \<noteq> []
   \<and> chosen_filename L url filename \<noteq> ''.''"
  using extract_filename_plain[of L url] sanitize_filename_plain
  by (auto simp: chosen_filename_def split: option.splits)

lemma name_joinpath_plain:
  assumes "CHR ''/'' \<notin> set key" and "key \<noteq> []" and "key \<noteq> ''.''"
  shows "name (joinpath p key) = key" and "parent (joinpath p key) = MkPath (root p) (parts p)"
proof -
  have "take 1 key \<noteq> ''/''" using assms(1,2) by (cases key) auto
  then have j: "joinpath p key = MkPath (root p) (parts p @ [key])"
    by (simp add: joinpath_def Path_plain[OF assms])
  show "name (joinpath p key) = key" by (simp add: j name_def)
  show "parent (joinpath p key) = MkPath (root p) (parts p)" by (simp add: j parent_def)
qed

text \<open>
  A download of a valid URL for which nothing fails and whose body stays within the cap
  succeeds: the result names the target path, the size is the number of bytes received,
  the content type is the one of the response, the file holds the chunks in order, the
  probe and the request are the two requests issued, and the file name is the one chosen
  from the URL or the caller's name whenever no file of that name was there.
\<close>

theorem download_within_cap_succeeds:
  assumes "prefix ''http://'' url \<or> prefix ''https://'' url"
      and "mkdir_error E = None"
      and "probe L E (max_size_mb * 1024 * 1024) max_size_mb = None"
      and "get_result E = Inr resp"
      and "raise_for_status L (status_code resp) url = None"
      and "open_error E = None"
      and "stream_error resp = None"
      and "\<forall>j < length (chunks resp). write_error E j = None"
      and "chunks resp = [] \<or> total (chunks resp) \<le> max_size_mb * 1024 * 1024"
  shows "case download_single_file_internal L E w url output_dir filename timeout max_size_mb of
           (r, w') \<Rightarrow>
             r = \<lparr>file_path = str_path (target_path L w url output_dir filename),
                   file_name = name (target_path L w url output_dir filename),
                   file_size = total (chunks resp),
                   content_type = resp_content_type resp,
                   success = True, error = None\<rparr>
             \<and> fmlookup (fs w') (target_path L w url output_dir filename)
                 = Some (File (concat (chunks resp)))
             \<and> net w' = net w @ [HEAD url, GET url]
             \<and> (\<not> path_exists (mkdir_parents (fs w) (Path output_dir))
                      (joinpath (Path output_dir) (chosen_filename L url filename)) \<longrightarrow>
                  file_name r = chosen_filename L url filename)"
proof -
  let ?mb = "max_size_mb * 1024 * 1024"
  let ?t = "target_path L w url output_dir filename"
  let ?pw = "probed_world w url output_dir"
  let ?X = "write_chunks L E resp ?t ?mb max_size_mb (chunks resp) 0 0 (open_wb (fs ?pw) ?t)"
  have 1: "chunks resp = [] \<or> 0 + total (chunks resp) \<le> ?mb" using assms(9) by simp
  have 2: "\<forall>j < length (chunks resp). write_error E (0 + j) = None" using assms(8) by simp
  have ok: "fst ?X = None"
    using write_chunks_within_cap[OF 1 2, of L resp ?t max_size_mb "open_wb (fs ?pw) ?t"] assms(7)
    by simp
  obtain x files where X: "?X = (x, files)" by (cases ?X) auto
  with ok have x: "x = None" by simp
  have "fmlookup (open_wb (fs ?pw) ?t) ?t = Some (File [])" by (simp add: open_wb_def)
  from write_chunks_completed[OF ok this] X
  have lk: "fmlookup files ?t = Some (File (concat (chunks resp)))" by simp
  then have ex: "path_exists files ?t" by (simp add: path_exists_def)
  have sz: "st_size files ?t = total (chunks resp)" using lk by (simp add: st_size_def total_def)
  have sb: "stream_body L E url ?t (name ?t) ?mb max_size_mb ?pw =
              (Inr \<lparr>file_path = str_path ?t, file_name = name ?t,
                    file_size = total (chunks resp), content_type = resp_content_type resp,
                    success = True, error = None\<rparr>,
               ?pw\<lparr>net := net ?pw @ [GET url], fs := files\<rparr>)"
    using assms(4-6) X x ex sz by (simp add: stream_body_def Let_def)
  have t: "download_try L E w url output_dir filename timeout max_size_mb =
             (fst (stream_body L E url ?t (name ?t) ?mb max_size_mb ?pw),
              Some (chosen_filename L url filename),
              snd (stream_body L E url ?t (name ?t) ?mb max_size_mb ?pw))"
    using assms(1-3) by (simp add: download_try_eq)
  have nm: "\<not> path_exists (mkdir_parents (fs w) (Path output_dir))
                      (joinpath (Path output_dir) (chosen_filename L url filename)) \<longrightarrow>
            name ?t = chosen_filename L url filename"
    using chosen_filename_plain[of L url filename]
    by (auto simp: target_path_def get_unique_filepath_def name_joinpath_plain)
  have res: "download_single_file_internal L E w url output_dir filename timeout max_size_mb =
               (\<lparr>file_path = str_path ?t, file_name = name ?t,
                 file_size = total (chunks resp), content_type = resp_content_type resp,
                 success = True, error = None\<rparr>,
                ?pw\<lparr>net := net ?pw @ [GET url], fs := files\<rparr>)"
    unfolding single_eq t sb by simp
  show ?thesis
    unfolding res using lk nm by (simp add: probed_world_def)
qed

theorem download_within_cap_succeeds_witness:
  "download_single_file_internal sample_lib (serving [[1, 2, 3], [4, 5]]) empty_world
       ''https://example.com/data.json'' ''/tmp/t'' None 60 500 =
     (\<lparr>file_path = ''/tmp/t/data.json'', file_name = ''data.json'', file_size = 5,
       content_type = Some ''application/json'', success = True, error = None\<rparr>,
      \<lparr>fs = fmupd (Path ''/tmp/t/data.json'') (File [1, 2, 3, 4, 5])
               (fmupd (Path ''/tmp/t'') Dir (fmupd (Path ''/tmp'') Dir fmempty)),
        net = [HEAD ''https://example.com/data.json'', GET ''https://example.com/data.json'']\<rparr>)"
proof -
  let ?E = "serving [[1, 2, 3], [4, 5]]"
  let ?url = "''https://example.com/data.json''"
  let ?resp = "\<lparr>status_code = 200, resp_content_type = Some ''application/json'',
                 chunks = [[1, 2, 3], [4, 5]], stream_error = None\<rparr>"
  have h1: "prefix ''http://'' ?url \<or> prefix ''https://'' ?url" by simp
  have h2: "mkdir_error ?E = None" by (simp add: serving_def)
  have h3: "probe sample_lib ?E (500 * 1024 * 1024) 500 = None" by (simp add: serving_def probe_def)
  have h4: "get_result ?E = Inr ?resp" by (simp add: serving_def)
  have h5: "raise_for_status sample_lib (status_code ?resp) ?url = None" by (simp add: sample_lib_def)
  have h6: "open_error ?E = None" by (simp add: serving_def)
  have h7: "stream_error ?resp = None" by simp
  have h8: "\<forall>j < length (chunks ?resp). write_error ?E j = None" by (simp add: serving_def)
  have h9: "chunks ?resp = [] \<or> total (chunks ?resp) \<le> 500 * 1024 * 1024" by simp
  have ev: "download_single_file_internal sample_lib ?E empty_world ?url ''/tmp/t'' None 60 500 =
     (\<lparr>file_path = ''/tmp/t/data.json'', file_name = ''data.json'', file_size = 5,
       content_type = Some ''application/json'', success = True, error = None\<rparr>,
      \<lparr>fs = fmupd (Path ''/tmp/t/data.json'') (File [1, 2, 3, 4, 5])
               (fmupd (Path ''/tmp/t'') Dir (fmupd (Path ''/tmp'') Dir fmempty)),
        net = [HEAD ?url, GET ?url]\<rparr>)"
    by code_simp
  from download_within_cap_succeeds[OF h1 h2 h3 h4 h5 h6 h7 h8 h9, where w = empty_world
         and output_dir = "''/tmp/t''" and filename = None and timeout = 60] ev
  show ?thesis by simp
qed

end
